theory Spec2Isabelle
  imports Main "HOL-Library.Sublist"
begin

text \<open>
  A model of the content synthesis of hypercontent: the entity placeholder expander, the
  placeholder resolver, the block serializer, the expansion and layout of the pages
  (\<open>buildPages\<close>), the run that drives them (\<open>generateContent\<close>), and the reconstruction of
  the navigation tree (\<open>useHcNavigation\<close>). Each function of the sources is a function here,
  under its own name where the name is free; the methods of JavaScript strings and arrays
  that the sources call are modelled first. A run works on a disk, which is passed from
  call to call, and an exception is a result: a function that can throw returns a sum,
  whose left side is the exception.
\<close>

section \<open>JavaScript strings\<close>

text \<open>
  A JavaScript string is a sequence of UTF-16 code units. The model writes a string as a
  \<^typ>\<open>string\<close>, one \<^typ>\<open>char\<close> per code unit, which covers every string whose code
  units are below 256 (ASCII and Latin-1).
  All the patterns of the sources only name ASCII characters.
\<close>

text \<open>\<open>String.prototype.includes\<close>: the argument occurs somewhere as a contiguous run.\<close>

fun js_includes :: "'a list \<Rightarrow> 'a list \<Rightarrow> bool" where
  "js_includes [] sub = (sub = [])"
| "js_includes (c # cs) sub = (prefix sub (c # cs) \<or> js_includes cs sub)"

text \<open>\<open>String.prototype.split\<close> with a separator of one character.\<close>

fun js_split :: "'a \<Rightarrow> 'a list \<Rightarrow> 'a list list" where
  "js_split sep [] = [[]]"
| "js_split sep (c # cs) =
     (if c = sep then [] # js_split sep cs
      else (case js_split sep cs of [] \<Rightarrow> [[c]] | piece # pieces \<Rightarrow> (c # piece) # pieces))"

text \<open>\<open>Array.prototype.findIndex\<close>; \<open>None\<close> stands for the result \<open>-1\<close>.\<close>

fun findIndex :: "('a \<Rightarrow> bool) \<Rightarrow> 'a list \<Rightarrow> nat option" where
  "findIndex f [] = None"
| "findIndex f (x # xs) = (if f x then Some 0 else map_option Suc (findIndex f xs))"

text \<open>\<open>\w\<close> (without the \<open>u\<close> flag the \<open>i\<close> flag adds no character to it).\<close>

definition isWordChar :: "char \<Rightarrow> bool" where
  "isWordChar c \<longleftrightarrow>
     c \<in> set ''abcdefghijklmnopqrstuvwxyzABCDEFGHIJKLMNOPQRSTUVWXYZ0123456789_''"

text \<open>
  \<open>GetSubstitution\<close> for a search string (no captures): in the replacement text \<open>$$\<close> is
  a dollar sign, \<open>$&\<close> the matched text, \<open>$`\<close> (code 0x60) the text before the match and
  \<open>$'\<close> (code 0x27) the text after it; any other character, and a dollar sign before any
  other character, stands for itself.
\<close>

fun getSubstitution :: "string \<Rightarrow> string \<Rightarrow> string \<Rightarrow> string \<Rightarrow> string" where
  "getSubstitution m pre post [] = []"
| "getSubstitution m pre post [c] = [c]"
| "getSubstitution m pre post (c # d # r) =
     (if c = CHR ''$'' \<and> d = CHR ''$'' then CHR ''$'' # getSubstitution m pre post r
      else if c = CHR ''$'' \<and> d = CHR ''&'' then m @ getSubstitution m pre post r
      else if c = CHR ''$'' \<and> d = CHR 0x60 then pre @ getSubstitution m pre post r
      else if c = CHR ''$'' \<and> d = CHR 0x27 then post @ getSubstitution m pre post r
      else c # getSubstitution m pre post (d # r))"

text \<open>
  \<open>String.prototype.replaceAll\<close> with a search string \<open>pat\<close>: the occurrences of \<open>pat\<close> are
  taken from left to right without overlap, and each is replaced by the text that
  \<open>subst\<close> gives for the text before the occurrence and the text after it. \<open>pre\<close> is the
  part of the string before \<open>rest\<close>.
\<close>

function replaceAllFrom :: "string \<Rightarrow> (string \<Rightarrow> string \<Rightarrow> string) \<Rightarrow> string \<Rightarrow> string \<Rightarrow> string" where
  "replaceAllFrom pat subst pre rest =
     (if pat \<noteq> [] \<and> prefix pat rest then
        subst pre (drop (length pat) rest)
          @ replaceAllFrom pat subst (pre @ pat) (drop (length pat) rest)
      else (case rest of
              [] \<Rightarrow> (if pat = [] then subst pre [] else [])
            | c # cs \<Rightarrow>
                (if pat = [] then subst pre rest else [])
                  @ c # replaceAllFrom pat subst (pre @ [c]) cs))"
  by pat_completeness auto
termination
proof (relation "measure (\<lambda>(pat, subst, pre, rest). length rest)")
  fix pat pre rest :: string and subst :: "string \<Rightarrow> string \<Rightarrow> string"
  assume "pat \<noteq> [] \<and> prefix pat rest"
  then have "length (drop (length pat) rest) < length rest"
    by (auto simp: prefix_def neq_Nil_conv)
  then show "((pat, subst, pre @ pat, drop (length pat) rest), (pat, subst, pre, rest))
      \<in> measure (\<lambda>(pat, subst, pre, rest). length rest)"
    by simp
qed simp_all

text \<open>\<open>s.replaceAll(pat, r)\<close> with a replacement text \<open>r\<close>, in which the patterns are read.\<close>

definition js_replaceAll :: "string \<Rightarrow> string \<Rightarrow> string \<Rightarrow> string" where
  "js_replaceAll s pat r = replaceAllFrom pat (\<lambda>pre post. getSubstitution pat pre post r) [] s"

text \<open>\<open>String.prototype.replace(pat, r)\<close> with a search string: the first occurrence only.\<close>

fun replaceFirstFrom :: "string \<Rightarrow> string \<Rightarrow> string \<Rightarrow> string \<Rightarrow> string" where
  "replaceFirstFrom pat r pre [] = (if pat = [] then getSubstitution pat pre [] r else [])"
| "replaceFirstFrom pat r pre (c # cs) =
     (if prefix pat (c # cs) then
        getSubstitution pat pre (drop (length pat) (c # cs)) r @ drop (length pat) (c # cs)
      else c # replaceFirstFrom pat r (pre @ [c]) cs)"

definition js_replace :: "string \<Rightarrow> string \<Rightarrow> string \<Rightarrow> string" where
  "js_replace s pat r = replaceFirstFrom pat r [] s"

text \<open>\<open>padEnd\<close> and \<open>padStart\<close>: the string is filled up to the target length with the
  fill text, repeated and cut as needed.\<close>

definition padding :: "nat \<Rightarrow> string \<Rightarrow> string" where
  "padding n fill = take n (concat (replicate n fill))"

definition js_padEnd :: "string \<Rightarrow> nat \<Rightarrow> string \<Rightarrow> string" where
  "js_padEnd s n fill = s @ padding (n - length s) fill"

definition js_padStart :: "string \<Rightarrow> nat \<Rightarrow> string \<Rightarrow> string" where
  "js_padStart s n fill = padding (n - length s) fill @ s"

text \<open>\<open>Array.prototype.join\<close>\<close>

fun js_join :: "string \<Rightarrow> string list \<Rightarrow> string" where
  "js_join sep [] = []"
| "js_join sep [x] = x"
| "js_join sep (x # y # xs) = x @ sep @ js_join sep (y # xs)"

text \<open>\<open>toLowerCase\<close> on the code units below 256.\<close>

definition js_toLowerCase :: "string \<Rightarrow> string" where
  "js_toLowerCase s =
     map (\<lambda>c. let n = (of_char c :: nat) in
               if (65 \<le> n \<and> n \<le> 90) \<or> (192 \<le> n \<and> n \<le> 222 \<and> n \<noteq> 215) then char_of (n + 32) else c) s"

text \<open>
  \<open>!isNaN(parseInt(s))\<close>: after the leading white space and one optional sign there is a
  digit, or \<open>0x\<close> and a hexadecimal digit.
\<close>

definition isWhiteSpace :: "char \<Rightarrow> bool" where
  "isWhiteSpace c \<longleftrightarrow> of_char c \<in> {9, 10, 11, 12, 13, 32, 160 :: nat}"

definition parsesAsInt :: "string \<Rightarrow> bool" where
  "parsesAsInt s =
     (let t = dropWhile isWhiteSpace s;
          u = (case t of [] \<Rightarrow> [] | c # r \<Rightarrow> if c = CHR ''+'' \<or> c = CHR ''-'' then r else t)
      in if prefix ''0x'' u \<or> prefix ''0X'' u
         then (case drop 2 u of [] \<Rightarrow> False | d # _ \<Rightarrow> d \<in> set ''0123456789abcdefABCDEF'')
         else (case u of [] \<Rightarrow> False | d # _ \<Rightarrow> d \<in> set ''0123456789''))"

text \<open>The decimal text of a number, as a template literal writes an integer.\<close>

function decimal :: "nat \<Rightarrow> string" where
  "decimal n = (if n < 10 then [''0123456789'' ! n] else decimal (n div 10) @ [''0123456789'' ! (n mod 10)])"
  by pat_completeness auto
termination
  by (relation "measure id") auto

definition js_number :: "int \<Rightarrow> string" where
  "js_number i = (if i < 0 then ''-'' @ decimal (nat (- i)) else decimal (nat i))"

section \<open>The navigation tree reconstructor (\<open>useHcNavigation.ts\<close>)\<close>

record HcPage =
  page_id :: int
  path :: string
  sortedPath :: string
  label :: string
  page_sort :: int
  page_show :: string
  access :: "string option"

text \<open>The five scalar fields of a \<open>NavigationItem\<close>.\<close>

record item =
  pageId :: int
  item_path :: string
  item_label :: string
  item_sort :: int
  item_show :: string

definition toItem :: "'a HcPage_scheme \<Rightarrow> item" where
  "toItem page = \<lparr>pageId = page_id page, item_path = path page, item_label = label page,
     item_sort = page_sort page, item_show = page_show page\<rparr>"

definition hasChild :: "'a HcPage_scheme \<Rightarrow> 'a HcPage_scheme \<Rightarrow> bool" where
  "hasChild page next \<longleftrightarrow>
     path next \<noteq> path page \<and> length (path next) > length (path page) \<and>
     js_includes (path next) (path page)"

definition isFirstLevel :: "'a HcPage_scheme \<Rightarrow> bool" where
  "isFirstLevel page \<longleftrightarrow> length (js_split CHR ''/'' (path page)) = 3"

text \<open>
  The loop of \<open>_loadNavigation\<close> shares objects: the \<open>parent\<close> variable and a slot of the
  \<open>_navigation\<close> array may hold the same object, and \<open>parent.children.push\<close> is seen through
  both. The model keeps the objects in a store: an address is an index of \<open>heap\<close>, an object
  is its scalar fields with its \<open>children\<close> array (\<open>None\<close> while the property is undefined),
  and \<open>nav_list\<close> (the array \<open>_navigation\<close>) and \<open>parent\<close> hold addresses.
\<close>

type_synonym addr = nat
type_synonym nav_object = "item \<times> addr list option"

record nav_state =
  heap :: "nav_object list"
  nav_list :: "addr list"
  parent :: "addr option"

text \<open>\<open>if (isFirstLevel(page)) parent = null\<close>\<close>

definition resetParent :: "'a HcPage_scheme \<Rightarrow> nav_state \<Rightarrow> nav_state" where
  "resetParent page st = (if isFirstLevel page then st\<lparr>parent := None\<rparr> else st)"

text \<open>
  The object literal of the page is pushed to \<open>parent.children\<close> (created empty when it is
  undefined) when there is a parent, to \<open>_navigation\<close> otherwise.
\<close>

definition pushItem :: "'a HcPage_scheme \<Rightarrow> nav_state \<Rightarrow> nav_state" where
  "pushItem page st =
     (let a = length (heap st) in
      case parent st of
        Some p \<Rightarrow>
          st\<lparr>heap := (heap st)[p := (fst (heap st ! p),
                 Some ((case snd (heap st ! p) of None \<Rightarrow> [] | Some cs \<Rightarrow> cs) @ [a]))]
               @ [(toItem page, None)]\<rparr>
      | None \<Rightarrow>
          st\<lparr>heap := heap st @ [(toItem page, None)], nav_list := nav_list st @ [a]\<rparr>)"

text \<open>
  \<open>if (next && hasChild(page, next))\<close>: a second object literal of the page becomes the
  parent; it is stored in the slot of \<open>_navigation\<close> that \<open>findIndex\<close> gives. When
  \<open>findIndex\<close> gives \<open>-1\<close> the assignment \<open>_navigation[-1] = parent\<close> sets a property that is
  no element of the array, and the array keeps its elements.
\<close>

definition reassignParent :: "'a HcPage_scheme \<Rightarrow> 'a HcPage_scheme option \<Rightarrow> nav_state \<Rightarrow> nav_state" where
  "reassignParent page next st =
     (case next of
        None \<Rightarrow> st
      | Some n \<Rightarrow>
          if hasChild page n then
            (let b = length (heap st);
                 h = heap st @ [(toItem page, None)]
             in st\<lparr>heap := h,
                   nav_list :=
                     (case findIndex (\<lambda>x. pageId (fst (h ! x)) = page_id page) (nav_list st) of
                        None \<Rightarrow> nav_list st
                      | Some k \<Rightarrow> (nav_list st)[k := b]),
                   parent := Some b\<rparr>)
          else st)"

definition navStep :: "'a HcPage_scheme \<Rightarrow> 'a HcPage_scheme option \<Rightarrow> nav_state \<Rightarrow> nav_state" where
  "navStep page next st = reassignParent page next (pushItem page (resetParent page st))"

text \<open>
  \<open>for (let index = 1; index < pageList.length; index++)\<close>, with
  \<open>next = pageList[index + 1]\<close>, undefined after the last page.
\<close>

fun navLoop :: "'a HcPage_scheme list \<Rightarrow> nav_state \<Rightarrow> nav_state" where
  "navLoop [] st = st"
| "navLoop (page # rest) st =
     navLoop rest (navStep page (case rest of [] \<Rightarrow> None | n # _ \<Rightarrow> Some n) st)"

text \<open>
  The exceptions of a run: \<open>TypeError\<close> is thrown by the language (a property read on
  \<open>undefined\<close>, a call of a value that is no function, a built-in method applied to
  \<open>undefined\<close>), \<open>Error msg\<close> by a \<open>throw new Error(msg)\<close> of the sources, \<open>SystemError code\<close>
  by a call to the file system (by its code), and \<open>Thrown what\<close> by a collaborator that is
  a parameter of the model (\<open>fetch\<close>, \<open>response.json\<close>, \<open>JSON.parse\<close>).
\<close>

datatype js_error = TypeError | Error string | SystemError string | Thrown string

text \<open>
  \<open>_loadNavigation\<close> on the body of the navigation file: \<open>None\<close> when the file is absent
  (the navigation becomes empty). On an empty list \<open>pageList[0].id\<close> reads a property of
  \<open>undefined\<close>, which throws before the loop. \<open>homePage\<close> is the object
  \<open>{...pageList[0], pageId: pageList[0].id}\<close>: the first page with all its fields (its
  \<open>pageId\<close> is a copy of its \<open>id\<close>); \<open>None\<close> is the value \<open>null\<close> that the state starts with.
\<close>

record 'a nav_result =
  homePage :: "'a HcPage_scheme option"
  nav_store :: nav_state

definition init_state :: nav_state where
  "init_state = \<lparr>heap = [], nav_list = [], parent = None\<rparr>"

definition loadNavigation :: "'a HcPage_scheme list option \<Rightarrow> js_error + 'a nav_result" where
  "loadNavigation body =
     (case body of
        None \<Rightarrow> Inr \<lparr>homePage = None, nav_store = init_state\<rparr>
      | Some [] \<Rightarrow> Inl TypeError
      | Some (home # rest) \<Rightarrow>
          Inr \<lparr>homePage = Some home, nav_store = navLoop rest init_state\<rparr>)"


text \<open>
  The value of \<open>navigation.value\<close> read as a forest. The objects are followed through the
  store with a bound on the depth; \<open>None\<close> says that the bound was reached.
\<close>

datatype nav_tree = Node item "nav_tree list option"

fun readout :: "nat \<Rightarrow> nav_object list \<Rightarrow> addr \<Rightarrow> nav_tree option" where
  "readout 0 h a = None"
| "readout (Suc n) h a =
     (case snd (h ! a) of
        None \<Rightarrow> Some (Node (fst (h ! a)) None)
      | Some cs \<Rightarrow> map_option (\<lambda>ts. Node (fst (h ! a)) (Some ts)) (those (map (readout n h) cs)))"

definition forest :: "nav_state \<Rightarrow> nav_tree list option" where
  "forest st = those (map (readout (Suc (length (heap st))) (heap st)) (nav_list st))"

definition mkPage :: "int \<Rightarrow> string \<Rightarrow> HcPage" where
  "mkPage i p = \<lparr>page_id = i, path = p, sortedPath = p, label = p, page_sort = 0,
     page_show = ''always'', access = None\<rparr>"


text \<open>
  The invariant of the loop: the array and the cursor hold addresses of the store, and an
  object that is in some \<open>children\<close> array has no \<open>children\<close> of its own and is not the
  cursor.
\<close>

definition nav_inv :: "nav_state \<Rightarrow> bool" where
  "nav_inv st \<longleftrightarrow>
     (\<forall>a\<in>set (nav_list st). a < length (heap st)) \<and>
     (\<forall>a. parent st = Some a \<longrightarrow> a < length (heap st)) \<and>
     (\<forall>b cs c. b < length (heap st) \<longrightarrow> snd (heap st ! b) = Some cs \<longrightarrow> c \<in> set cs \<longrightarrow>
        c < length (heap st) \<and> snd (heap st ! c) = None \<and> parent st \<noteq> Some c)"



section \<open>The entity placeholder expander (\<open>resolveInputWithEntity\<close>)\<close>

text \<open>
  \<open>DYNAMIC_ENTITY_PLACEHOLDER_PATTERN = /:(\w+)\.(\w+)/gim\<close> at the start of a string: a
  colon, the longest run of word characters (not empty), a dot, the longest run of word
  characters (not empty). A shorter first run would not be followed by a dot, and the
  second run is greedy, so this is the match of the backtracking matcher when there is
  one. The result is the pair of the two groups.
\<close>

definition placeholderAt :: "string \<Rightarrow> (string \<times> string) option" where
  "placeholderAt s =
     (case s of
        [] \<Rightarrow> None
      | c # r \<Rightarrow>
          (let g1 = takeWhile isWordChar r; r1 = dropWhile isWordChar r in
           if c = CHR '':'' \<and> g1 \<noteq> [] then
             (case r1 of
                [] \<Rightarrow> None
              | d # r2 \<Rightarrow>
                  (let g2 = takeWhile isWordChar r2 in
                   if d = CHR ''.'' \<and> g2 \<noteq> [] then Some (g1, g2) else None))
           else None))"

definition placeholderText :: "string \<times> string \<Rightarrow> string" where
  "placeholderText g = CHR '':'' # fst g @ CHR ''.'' # snd g"

text \<open>
  \<open>input.match(DYNAMIC_ENTITY_PLACEHOLDER_PATTERN)\<close>: the matches from left to right, the
  search going on after each match; the empty list stands for \<open>null\<close>.
\<close>

fun placeHolderMatches :: "string \<Rightarrow> string list" where
  "placeHolderMatches [] = []"
| "placeHolderMatches (c # cs) =
     (case placeholderAt (c # cs) of
        None \<Rightarrow> placeHolderMatches cs
      | Some g \<Rightarrow> placeholderText g # placeHolderMatches (drop (length (fst g) + length (snd g) + 1) cs))"

text \<open>
  An entity record: the names of its own properties with the string conversion of their
  values (an entity is taken to be a plain object of data). The read \<open>entity[entityProp]\<close>
  also finds what a plain object inherits from \<open>Object.prototype\<close>: its functions, and
  under \<open>__proto__\<close> the prototype itself, whose string conversion is
  \<open>[object Object]\<close>. A name that is found nowhere reads \<open>undefined\<close>, which
  \<open>replaceAll\<close> converts to the text \<open>undefined\<close>.
\<close>

type_synonym entity = "(string \<times> string) list"

datatype property = Text string | Inherited string

definition objectPrototypeFunctions :: "string list" where
  "objectPrototypeFunctions =
     [''constructor'', ''__defineGetter__'', ''__defineSetter__'', ''hasOwnProperty'',
      ''__lookupGetter__'', ''__lookupSetter__'', ''isPrototypeOf'', ''propertyIsEnumerable'',
      ''toString'', ''valueOf'', ''toLocaleString'']"

definition entityProperty :: "entity \<Rightarrow> string \<Rightarrow> property" where
  "entityProperty e k =
     (case map_of e k of
        Some v \<Rightarrow> Text v
      | None \<Rightarrow>
          if k \<in> set objectPrototypeFunctions then Inherited k
          else if k = ''__proto__'' then Text ''[object Object]''
          else Text ''undefined'')"

text \<open>
  A function is a replacer for \<open>replaceAll\<close>: it is called for an occurrence with the
  matched text as its first argument and \<open>undefined\<close> as \<open>this\<close>, and the string conversion
  of its result replaces the occurrence, with no pattern read in it. Of the functions of
  \<open>Object.prototype\<close>, \<open>constructor\<close> (the function \<open>Object\<close>) wraps the matched text, which
  converts back to itself; \<open>toString\<close> gives \<open>[object Undefined]\<close>; \<open>isPrototypeOf\<close> gives
  \<open>false\<close> for an argument that is no object; the others convert \<open>this\<close> to an object
  and throw.
\<close>

definition callInherited :: "string \<Rightarrow> string \<Rightarrow> js_error + string" where
  "callInherited f matched =
     (if f = ''constructor'' then Inr matched
      else if f = ''toString'' then Inr ''[object Undefined]''
      else if f = ''isPrototypeOf'' then Inr ''false''
      else Inl TypeError)"

text \<open>
  \<open>s.replaceAll(pat, v)\<close> for a value read from an entity. A replacer is called only when
  \<open>pat\<close> occurs; its result depends on the matched text alone, which is \<open>pat\<close> at every
  occurrence.
\<close>

definition replaceAllBy :: "string \<Rightarrow> string \<Rightarrow> property \<Rightarrow> js_error + string" where
  "replaceAllBy s pat v =
     (case v of
        Text r \<Rightarrow> Inr (js_replaceAll s pat r)
      | Inherited f \<Rightarrow>
          if js_includes s pat then
            (case callInherited f pat of
               Inl err \<Rightarrow> Inl err
             | Inr t \<Rightarrow> Inr (replaceAllFrom pat (\<lambda>pre post. t) [] s))
          else Inr s)"

text \<open>The loop of \<open>resolveInputWithEntity\<close> over the matches, with the variable \<open>resolvedInput\<close>.\<close>

fun resolveLoop :: "string \<Rightarrow> string \<Rightarrow> entity \<Rightarrow> string list \<Rightarrow> string \<Rightarrow> js_error + string" where
  "resolveLoop input entityName e [] resolvedInput = Inr resolvedInput"
| "resolveLoop input entityName e (placeHolder # rest) resolvedInput =
     (let entityProp = js_replace placeHolder (CHR '':'' # entityName @ ''.'') [] in
      case replaceAllBy (if resolvedInput \<noteq> [] then resolvedInput else input) placeHolder
             (entityProperty e entityProp) of
        Inl err \<Rightarrow> Inl err
      | Inr replaced \<Rightarrow> resolveLoop input entityName e rest replaced)"

definition resolveInputWithEntity :: "string \<Rightarrow> string \<Rightarrow> entity \<Rightarrow> js_error + string" where
  "resolveInputWithEntity input entityName e =
     (case placeHolderMatches input of
        [] \<Rightarrow> Inr input
      | placeHolder # rest \<Rightarrow> resolveLoop input entityName e (placeHolder # rest) [])"

section \<open>The placeholder resolver (\<open>base/modules/generate-content\<close>)\<close>

text \<open>
  The token pattern \<open>/{(\w+\.?)+\w+}/gim\<close> at the start of a string. The text between the
  braces is made of word characters and dots only, so it is the longest such run after the
  opening brace, and the closing brace must follow it. A run is in \<open>(\w+\.?)+\w+\<close> when it
  has two characters or more, starts and ends with a word character and has no two dots
  in a row. The result is the text between the braces.
\<close>

definition isTokenChar :: "char \<Rightarrow> bool" where
  "isTokenChar c \<longleftrightarrow> isWordChar c \<or> c = CHR ''.''"

definition tokenBody :: "string \<Rightarrow> bool" where
  "tokenBody b \<longleftrightarrow>
     2 \<le> length b \<and> isWordChar (hd b) \<and> isWordChar (last b) \<and> \<not> js_includes b ''..''"

definition tokenAt :: "string \<Rightarrow> string option" where
  "tokenAt s =
     (case s of
        [] \<Rightarrow> None
      | c # r \<Rightarrow>
          (let b = takeWhile isTokenChar r in
           if c = CHR ''{'' \<and> tokenBody b \<and> prefix ''}'' (dropWhile isTokenChar r)
           then Some b else None))"

text \<open>\<open>input.match(/{(\w+\.?)+\w+}/gim) || []\<close>: the text between the braces of each match.\<close>

fun tokenMatches :: "string \<Rightarrow> string list" where
  "tokenMatches [] = []"
| "tokenMatches (c # cs) =
     (case tokenAt (c # cs) of
        None \<Rightarrow> tokenMatches cs
      | Some b \<Rightarrow> b # tokenMatches (drop (length b + 1) cs))"

text \<open>
  \<open>replaceInString\<close>. The helper \<open>get\<close> is not among the sources: \<open>get_values\<close> stands for
  \<open>path \<mapsto> get(values, path, '')\<close>, converted to a string as \<open>replaceAll\<close> does. The path of a
  match is the match without its braces (\<open>placeholder.replace(/^{(.*)}$/gim, '$1')\<close>).
\<close>

definition replaceInString :: "(string \<Rightarrow> string) \<Rightarrow> string \<Rightarrow> string" where
  "replaceInString get_values input =
     foldl (\<lambda>inp b. js_replaceAll inp (''{'' @ b @ ''}'') (get_values b)) input (tokenMatches input)"

text \<open>
  The input of \<open>resolvePlaceholders\<close>: a string, or an object of strings (the query
  parameters), whose entries become a query string.
\<close>

datatype placeholder_input = Template string | QueryParams "(string \<times> string) list"

definition resolvePlaceholders :: "(string \<Rightarrow> string) \<Rightarrow> placeholder_input \<Rightarrow> string" where
  "resolvePlaceholders get_values input =
     (case input of
        QueryParams entries \<Rightarrow>
          foldl (\<lambda>acc (key, v).
                   let replaced = replaceInString get_values v in
                   if replaced = [] then acc
                   else (acc @ (if acc \<noteq> [] then ''&'' else ''?'')) @ key @ ''='' @ replaced)
                [] entries
      | Template s \<Rightarrow> if s \<noteq> [] then replaceInString get_values s else s)"

text \<open>A context for the examples: \<open>page.id\<close> is 42 and \<open>lang.code\<close> is \<open>en\<close>.\<close>

definition page_values :: "string \<Rightarrow> string" where
  "page_values p = (if p = ''page.id'' then ''42'' else if p = ''lang.code'' then ''en'' else [])"

section \<open>The block serializer (\<open>cms/modules/generate-content\<close>)\<close>

text \<open>
  A property value: \<open>Primitive s\<close> is a value whose \<open>typeof\<close> is not \<open>object\<close> (a string, a
  number or a boolean) with its string conversion \<open>s\<close>; \<open>Object j\<close> is an object, an array
  or \<open>null\<close> with its \<open>JSON.stringify\<close> text \<open>j\<close>.
\<close>

datatype prop_value = Primitive string | Object string

text \<open>
  A block: its \<open>type\<close> and \<open>text\<close> (\<open>None\<close> when undefined), the entries of \<open>data.props\<close> in
  the order of \<open>Object.entries\<close>, and its children (the empty list also stands for an
  undefined \<open>children\<close>, which the code treats alike).
\<close>

datatype block = Block "string option" "string option" "(string \<times> prop_value) list" "block list"

record HcPageContent =
  state :: string
  blocks :: "block list"

record DynamicContentEntityDef =
  name :: string
  field :: "string option"

definition isInlineComponent :: "block list \<Rightarrow> bool" where
  "isInlineComponent children \<longleftrightarrow> children = []"

text \<open>
  The helper \<open>pascalToKebab\<close> of \<open>common/helpers\<close> is not among the sources: it is the
  parameter \<open>kebab\<close>, applied to the \<open>type\<close> of the block as the code passes it.
\<close>

definition mdComponentName :: "(string option \<Rightarrow> string) \<Rightarrow> string option \<Rightarrow> block list \<Rightarrow> nat \<Rightarrow> string" where
  "mdComponentName kebab ty children depth =
     (if isInlineComponent children then '':'' else js_padEnd [] (depth + 2) '':'') @ kebab ty"

definition indent :: "nat \<Rightarrow> string" where
  "indent depth = js_padStart [] depth ''  ''"

definition isBooleanOrNumber :: "prop_value \<Rightarrow> bool" where
  "isBooleanOrNumber v =
     (case v of
        Object j \<Rightarrow> False
      | Primitive s \<Rightarrow> js_toLowerCase s \<in> set [''true'', ''false''] \<or> parsesAsInt s)"

definition componentProp :: "string \<times> prop_value \<Rightarrow> string" where
  "componentProp kv =
     (case kv of
        (key, Primitive s) \<Rightarrow>
          if isBooleanOrNumber (Primitive s) then '':'' @ key @ ''='' @ s
          else key @ ''='' @ [CHR 0x22] @ s @ [CHR 0x22]
      | (key, Object j) \<Rightarrow> '':'' @ key @ ''='' @ [CHR 0x27] @ j @ [CHR 0x27])"

definition processBlockProps :: "(string \<times> prop_value) list \<Rightarrow> string" where
  "processBlockProps props =
     (if props = [] then [] else ''{'' @ js_join '' '' (map componentProp props) @ ''}'')"

definition isRawText :: "string option \<Rightarrow> string option \<Rightarrow> bool" where
  "isRawText ty txt \<longleftrightarrow> ty = None \<and> (case txt of None \<Rightarrow> False | Some t \<Rightarrow> t \<noteq> [])"

fun processBlock :: "(string option \<Rightarrow> string) \<Rightarrow> nat \<Rightarrow> block \<Rightarrow> string list" where
  "processBlock kebab depth (Block ty txt props children) =
     (if isRawText ty txt then [case txt of None \<Rightarrow> [] | Some t \<Rightarrow> t]
      else
        [indent depth @ mdComponentName kebab ty children depth @ processBlockProps props]
        @ (if \<not> isInlineComponent children then
             concat (map (processBlock kebab (depth + 1)) children)
             @ [indent depth @ js_padEnd [] (depth + 2) '':'']
           else []))"

definition json2mdc ::
  "(string option \<Rightarrow> string) \<Rightarrow> HcPageContent option \<Rightarrow> DynamicContentEntityDef option \<Rightarrow> string option" where
  "json2mdc kebab content dynamicPageEntityDef =
     (case content of
        None \<Rightarrow> None
      | Some c \<Rightarrow>
          if state c \<noteq> ''published'' then None
          else Some (js_join [CHR 0x0A]
            ((case dynamicPageEntityDef of
                None \<Rightarrow> []
              | Some d \<Rightarrow> [''::hc-dynamic-content{entity='' @ [CHR 0x22] @ name d @ [CHR 0x22]
                            @ '' field='' @ [CHR 0x22]
                            @ (case field d of None \<Rightarrow> ''undefined'' | Some f \<Rightarrow> f)
                            @ [CHR 0x22] @ ''}''])
             @ concat (map (processBlock kebab 0) (blocks c))
             @ (case dynamicPageEntityDef of None \<Rightarrow> [] | Some d \<Rightarrow> [''::'']))))"

text \<open>
  Modelled from the spec: the helper \<open>pascalToKebab\<close> of \<open>common/helpers\<close>, which is not
  among the sources. The spec gives: a capitalized-word form becomes a hyphenated
  lowercase form (\<open>SessionCard\<close> becomes \<open>session-card\<close>), and a name that begins with
  \<open>session\<close> begins with \<open>event\<close> instead. It is used for the examples only; the
  theorems hold for every helper.
\<close>

definition isUpper :: "char \<Rightarrow> bool" where
  "isUpper c \<longleftrightarrow> c \<in> set ''ABCDEFGHIJKLMNOPQRSTUVWXYZ''"

fun hyphenate :: "string \<Rightarrow> string" where
  "hyphenate [] = []"
| "hyphenate (c # cs) = (if isUpper c then CHR ''-'' # c # hyphenate cs else c # hyphenate cs)"

definition pascalToKebab :: "string option \<Rightarrow> string" where
  "pascalToKebab ty =
     (case ty of
        None \<Rightarrow> []
      | Some [] \<Rightarrow> []
      | Some (c # cs) \<Rightarrow>
          (let k = js_toLowerCase (c # hyphenate cs) in
           if prefix ''session'' k then ''event'' @ drop 7 k else k))"

section \<open>Page expansion and layout (\<open>buildPages\<close> of \<open>cms/modules/generate-content\<close>)\<close>

record ImportingPage = HcPage +
  localPath :: "string option"
  localSortedPath :: "string option"
  hasDynamicContent :: "bool option"
  entity :: "(string \<times> entity) option"

record Config =
  apiBasePath :: "string list"
  apiBaseUrl :: string
  contentBasePath :: "string list"

text \<open>The module variable \<open>config\<close> as the module is loaded.\<close>

definition config :: Config where
  "config = \<lparr>apiBasePath = [''_hc'', ''api''], apiBaseUrl = [], contentBasePath = [''content'']\<rparr>"

text \<open>
  The collaborators that are not among the sources, as parameters. Those that call the
  network or read a text can throw: \<open>Inl what\<close> is an exception, by a description of it.
  \<^item> \<open>kebabHelper\<close>: the helper \<open>pascalToKebab\<close>;
  \<^item> \<open>contentDetailPath page\<close>: \<open>resolveEndpointDefPlaceholders(HC_ENDPOINTS.content.detail.path, {page})\<close>;
  \<^item> \<open>fetchContent url\<close>: \<open>fetch(url)\<close>, \<open>response.json()\<close> and the read of
    \<open>json.items[0].expand.Content\<close>: an exception of one of them, or the content (\<open>None\<close> for
    \<open>null\<close>, \<open>undefined\<close> and any value without a \<open>state\<close>); a content whose state is
    \<open>published\<close> is taken to have its \<open>blocks\<close>, as its type says;
  \<^item> \<open>stringifyContent\<close>: \<open>JSON.stringify\<close> on a content, \<open>None\<close> when the result is \<open>undefined\<close>;
  \<^item> \<open>parseContent\<close>: \<open>JSON.parse\<close> on a text: an exception (a text that is no JSON
    text), or the content;
  \<^item> \<open>stringifyEntity\<close>: \<open>JSON.stringify\<close> on an entity record.
\<close>

record Collaborators =
  kebabHelper :: "string option \<Rightarrow> string"
  contentDetailPath :: "ImportingPage \<Rightarrow> string"
  fetchContent :: "string \<Rightarrow> string + HcPageContent option"
  stringifyContent :: "HcPageContent option \<Rightarrow> string option"
  parseContent :: "string \<Rightarrow> string + HcPageContent option"
  stringifyEntity :: "entity \<Rightarrow> string"

text \<open>
  The calls of a run to the file system and to the network, in their order: \<open>rm\<close> and
  \<open>mkdir\<close> with the path segments given to \<open>join\<close>, \<open>dumpFile\<close> with its content, path
  and file extension, \<open>fetch\<close> with its url. A call is recorded when it is made, whether
  it completes or throws.
\<close>

datatype effect = Rm "string list" | Mkdir "string list" | DumpFile string string string | Fetch string

subsection \<open>Paths and the disk\<close>

text \<open>
  \<open>path.join\<close> (POSIX): the segments that are not empty are joined with a separator and
  the result is normalized. A path is written as the list of its segments; the path of
  an absolute path starts with the segment \<open>/\<close>, which no other segment can be. A segment
  \<open>.\<close> is dropped, and a segment \<open>..\<close> removes the segment before it, stays at the start
  of a relative path and is dropped at the root. The empty list is the working
  directory.
\<close>

fun normalizeFrom :: "bool \<Rightarrow> string list \<Rightarrow> string list \<Rightarrow> string list" where
  "normalizeFrom absolute acc [] = rev acc"
| "normalizeFrom absolute acc (s # ss) =
     (if s = ''.'' then normalizeFrom absolute acc ss
      else if s = ''..'' then
        (case acc of
           [] \<Rightarrow> if absolute then normalizeFrom absolute [] ss
                 else normalizeFrom absolute [''..''] ss
         | t # acc' \<Rightarrow>
             if t = ''..'' then normalizeFrom absolute (''..'' # acc) ss
             else normalizeFrom absolute acc' ss)
      else normalizeFrom absolute (s # acc) ss)"

definition joinPath :: "string list \<Rightarrow> string list" where
  "joinPath segments =
     (let joined = js_join ''/'' (filter (\<lambda>s. s \<noteq> []) segments);
          absolute = prefix ''/'' joined
      in (if absolute then [''/''] else [])
         @ normalizeFrom absolute [] (filter (\<lambda>s. s \<noteq> []) (js_split CHR ''/'' joined)))"

text \<open>
  The text of \<open>path.join\<close>, for segments of which the last does not end with a separator
  (\<open>join\<close> keeps a separator at the end).
\<close>

definition joinText :: "string list \<Rightarrow> string" where
  "joinText segments =
     (case joinPath segments of
        [] \<Rightarrow> ''.''
      | s # ss \<Rightarrow> if s = ''/'' then ''/'' @ js_join ''/'' ss else js_join ''/'' (s # ss))"

text \<open>
  The disk: the paths that are directories, and the files with their contents. There are
  no links, no permissions and no limits on names, and the content root is a folder that
  \<open>rm\<close> can remove (not the working directory or a folder above it).
  \<^item> \<open>mkdir(p, {recursive: true})\<close> makes \<open>p\<close> and the directories above it; it throws when
    \<open>p\<close> or a path above it is a file.
  \<^item> \<open>writeFile(p, content)\<close> writes the file when the directory that holds it exists; it
    does not make directories, and throws when \<open>p\<close> is a directory, when a path above it
    is a file, and when the directory that holds it is missing (\<open>ENOENT\<close>).
  \<^item> \<open>rm(p, {recursive: true, force: true})\<close> removes what lies at or below \<open>p\<close>, and
    accepts that there is nothing.
\<close>

record disk =
  dirs :: "string list set"
  files :: "string list \<rightharpoonup> string"

definition mkdirRecursive :: "string list \<Rightarrow> disk \<Rightarrow> js_error + disk" where
  "mkdirRecursive p d =
     (if files d p \<noteq> None then Inl (SystemError ''EEXIST'')
      else if \<exists>q\<in>set (prefixes p). files d q \<noteq> None then Inl (SystemError ''ENOTDIR'')
      else Inr (d\<lparr>dirs := dirs d \<union> set (prefixes p)\<rparr>))"

definition writeFile :: "string list \<Rightarrow> string \<Rightarrow> disk \<Rightarrow> js_error + disk" where
  "writeFile p content d =
     (if p \<in> dirs d then Inl (SystemError ''EISDIR'')
      else if \<exists>q\<in>set (prefixes (butlast p)). files d q \<noteq> None then Inl (SystemError ''ENOTDIR'')
      else if butlast p \<in> dirs d then Inr (d\<lparr>files := (files d)(p \<mapsto> content)\<rparr>)
      else Inl (SystemError ''ENOENT''))"

definition rmRecursive :: "string list \<Rightarrow> disk \<Rightarrow> disk" where
  "rmRecursive p d =
     \<lparr>dirs = Set.filter (\<lambda>q. \<not> prefix p q) (dirs d),
      files = (\<lambda>q. if prefix p q then None else files d q)\<rparr>"

text \<open>
  \<open>dumpFile\<close>. The segments of the file are those of \<open>config.contentBasePath\<close>, then the
  pieces of the path with its extension that are not empty. The directory that
  \<open>mkdir\<close> makes is the path of the segments that do not end with the extension: the last
  segment always ends with it, and so does any other that ends like a file name. The
  result is the disk as the call leaves it, and the exception if it throws.
\<close>

definition filePath :: "Config \<Rightarrow> string \<Rightarrow> string \<Rightarrow> string list" where
  "filePath cfg p ext =
     contentBasePath cfg @ filter (\<lambda>seg. seg \<noteq> []) (js_split CHR ''/'' (p @ ''.'' @ ext))"

definition dumpTarget :: "Config \<Rightarrow> string \<Rightarrow> string \<Rightarrow> string list" where
  "dumpTarget cfg p ext = joinPath (filePath cfg p ext)"

definition dumpFolder :: "Config \<Rightarrow> string \<Rightarrow> string \<Rightarrow> string list" where
  "dumpFolder cfg p ext = joinPath (filter (\<lambda>seg. \<not> suffix (''.'' @ ext) seg) (filePath cfg p ext))"

definition dumpFile :: "Config \<Rightarrow> string \<Rightarrow> string \<Rightarrow> string \<Rightarrow> disk \<Rightarrow> disk \<times> js_error option" where
  "dumpFile cfg content p ext d =
     (case mkdirRecursive (dumpFolder cfg p ext) d of
        Inl err \<Rightarrow> (d, Some err)
      | Inr d1 \<Rightarrow>
          (case writeFile (dumpTarget cfg p ext) content d1 of
             Inl err \<Rightarrow> (d1, Some err)
           | Inr d2 \<Rightarrow> (d2, None)))"

text \<open>\<open>if (cond) await dumpFile(content, p, ext)\<close>, with the call it records.\<close>

definition dumpWhen ::
  "bool \<Rightarrow> Config \<Rightarrow> string \<Rightarrow> string \<Rightarrow> string \<Rightarrow> disk \<Rightarrow> effect list \<times> disk \<times> js_error option" where
  "dumpWhen cond cfg content p ext d =
     (if cond then (case dumpFile cfg content p ext d of (d', failed) \<Rightarrow> ([DumpFile content p ext], d', failed))
      else ([], d, None))"

subsection \<open>The pages\<close>

definition getFrontMatter :: "'a HcPage_scheme \<Rightarrow> string \<Rightarrow> string" where
  "getFrontMatter page apiUrl =
     ''---'' @ [CHR 0x0A]
     @ (if page_show page \<noteq> ''always'' then ''navigation: false'' @ [CHR 0x0A] else [])
     @ ''access: '' @ (case access page of None \<Rightarrow> ''all'' | Some a \<Rightarrow> if a = [] then ''all'' else a)
     @ [CHR 0x0A]
     @ ''apiUrl: '' @ apiUrl @ [CHR 0x0A]
     @ ''---'' @ [CHR 0x0A, CHR 0x0A]"

text \<open>
  \<open>getEntityDefFromPath\<close>: the segments of the path that hold a colon, each read as
  \<open>[name, field] = p.slice(1).split('.')\<close>; the last one stays.
\<close>

definition getEntityDefFromPath :: "string \<Rightarrow> DynamicContentEntityDef" where
  "getEntityDefFromPath pagePath =
     foldl (\<lambda>acc p. let parts = js_split CHR ''.'' (drop 1 p) in
                     \<lparr>name = (case parts of [] \<Rightarrow> [] | n # _ \<Rightarrow> n),
                      field = (case parts of n # f # _ \<Rightarrow> Some f | _ \<Rightarrow> None)\<rparr>)
       \<lparr>name = [], field = Some []\<rparr>
       (filter (\<lambda>p. js_includes p '':'') (js_split CHR ''/'' pagePath))"

text \<open>
  \<open>resolvePageWithEntity\<close>: the object literal resolves the label, the path and the sorted
  path in this order, and the first exception ends it.
\<close>

definition resolvePageWithEntity :: "string \<Rightarrow> ImportingPage \<Rightarrow> entity \<Rightarrow> js_error + ImportingPage" where
  "resolvePageWithEntity entityName page e =
     (case resolveInputWithEntity (label page) entityName e of
        Inl err \<Rightarrow> Inl err
      | Inr l \<Rightarrow>
          (case resolveInputWithEntity (path page) entityName e of
             Inl err \<Rightarrow> Inl err
           | Inr p \<Rightarrow>
               (case resolveInputWithEntity (sortedPath page) entityName e of
                  Inl err \<Rightarrow> Inl err
                | Inr sp \<Rightarrow>
                    Inr (page\<lparr>label := l, path := p, sortedPath := sp,
                              entity := Some (entityName, e)\<rparr>))))"

text \<open>\<open>for (const entity of entities) pages.push(resolvePageWithEntity(page, entity))\<close>\<close>

fun resolveEntities :: "string \<Rightarrow> ImportingPage \<Rightarrow> entity list \<Rightarrow> js_error + ImportingPage list" where
  "resolveEntities entityName page [] = Inr []"
| "resolveEntities entityName page (e # es) =
     (case resolvePageWithEntity entityName page e of
        Inl err \<Rightarrow> Inl err
      | Inr p \<Rightarrow>
          (case resolveEntities entityName page es of
             Inl err \<Rightarrow> Inl err
           | Inr ps \<Rightarrow> Inr (p # ps)))"

text \<open>
  The first loop of \<open>buildPages\<close> on one entry of the navigation. \<open>resolvers\<close> holds the
  registered resolvers: for the name of an entity, the entities of
  \<open>resolver.resolve(resolver.response)\<close>. The lookup \<open>dynamicPageResolvers[entityName]\<close> also
  finds what the object inherits from \<open>Object.prototype\<close>: for such a name without a
  registered resolver the value is truthy and has no \<open>resolve\<close>, and the call throws.
\<close>

definition objectPrototypeNames :: "string list" where
  "objectPrototypeNames = ''__proto__'' # objectPrototypeFunctions"

definition expandPage ::
  "(string \<rightharpoonup> entity list) \<Rightarrow> ImportingPage \<Rightarrow> js_error + ImportingPage list" where
  "expandPage resolvers page =
     (if \<not> js_includes (path page) '':'' then Inr [page\<lparr>hasDynamicContent := Some False\<rparr>]
      else
        (case resolvers (name (getEntityDefFromPath (path page))) of
           Some entities \<Rightarrow>
             resolveEntities (name (getEntityDefFromPath (path page)))
               (page\<lparr>hasDynamicContent := Some False\<rparr>) entities
         | None \<Rightarrow>
             if name (getEntityDefFromPath (path page)) \<in> set objectPrototypeNames
             then Inl TypeError
             else Inr [page\<lparr>hasDynamicContent := Some True\<rparr>]))"

fun expandPages ::
  "(string \<rightharpoonup> entity list) \<Rightarrow> ImportingPage list \<Rightarrow> js_error + ImportingPage list" where
  "expandPages resolvers [] = Inr []"
| "expandPages resolvers (page # rest) =
     (case expandPage resolvers page of
        Inl e \<Rightarrow> Inl e
      | Inr pages \<Rightarrow>
          (case expandPages resolvers rest of
             Inl e \<Rightarrow> Inl e
           | Inr pages' \<Rightarrow> Inr (pages @ pages')))"

text \<open>
  \<open>PATH_CHECK_PATTERN = /[/:.a-z0-9-_]+/gm\<close>: \<open>match\<close> gives the maximal runs of the
  characters of the class, from left to right (the empty list stands for \<open>null\<close>).
\<close>

definition isPathChar :: "char \<Rightarrow> bool" where
  "isPathChar c \<longleftrightarrow> c \<in> set ''/:.abcdefghijklmnopqrstuvwxyz0123456789-_''"

function pathCheckMatches :: "string \<Rightarrow> string list" where
  "pathCheckMatches [] = []"
| "pathCheckMatches (c # cs) =
     (if isPathChar c then (c # takeWhile isPathChar cs) # pathCheckMatches (dropWhile isPathChar cs)
      else pathCheckMatches cs)"
  by pat_completeness auto
termination
  by (relation "measure length") (auto simp: length_dropWhile_le less_Suc_eq_le)

text \<open>\<open>!pathCheck || pathCheck[0] !== page.path\<close>\<close>

definition pathCheckFails :: "string \<Rightarrow> bool" where
  "pathCheckFails p = (case pathCheckMatches p of [] \<Rightarrow> True | m # _ \<Rightarrow> m \<noteq> p)"

definition pathCheckMessage :: "string \<Rightarrow> string" where
  "pathCheckMessage p =
     ''Page path '' @ p @ '' contains invalid character(s) => path check pattern: ''
     @ ''/[/:.a-z0-9-_]+/gm''"

text \<open>
  \<open>sortedPath.replace(DYNAMIC_ENTITY_PLACEHOLDER_PATTERN, (_, g1, g2) => `__${g1}.${g2}__`)\<close>
\<close>

fun localSorted :: "string \<Rightarrow> string" where
  "localSorted [] = []"
| "localSorted (c # cs) =
     (case placeholderAt (c # cs) of
        None \<Rightarrow> c # localSorted cs
      | Some g \<Rightarrow> ''__'' @ fst g @ ''.'' @ snd g @ ''__''
                  @ localSorted (drop (length (fst g) + length (snd g) + 1) cs))"

text \<open>
  \<open>nextPage = i < navigation.length && navigation[i + 1]\<close> and
  \<open>createDir = nextPage && nextPage.sortedPath.includes(page.sortedPath)\<close>: the look-ahead
  reads the navigation as it was given, at the index of the page among the expanded pages.
\<close>

definition createDir :: "ImportingPage list \<Rightarrow> nat \<Rightarrow> ImportingPage \<Rightarrow> bool" where
  "createDir navigation i page \<longleftrightarrow>
     i < length navigation \<and> i + 1 < length navigation \<and>
     js_includes (sortedPath (navigation ! (i + 1))) (sortedPath page)"

text \<open>
  The content of the page: the fetched value, and for a page with an entity the value
  parsed back from its JSON text after the two substitutions. The expander calls
  \<open>input.match\<close>, which throws when \<open>JSON.stringify\<close> gave \<open>undefined\<close>.
\<close>

definition pageContent ::
  "Collaborators \<Rightarrow> ImportingPage \<Rightarrow> HcPageContent option \<Rightarrow> js_error + HcPageContent option" where
  "pageContent api page fetched =
     (case entity page of
        None \<Rightarrow> Inr fetched
      | Some (entityName, e) \<Rightarrow>
          (case stringifyContent api fetched of
             None \<Rightarrow> Inl TypeError
           | Some text \<Rightarrow>
               (case resolveInputWithEntity text entityName e of
                  Inl err \<Rightarrow> Inl err
                | Inr resolved \<Rightarrow>
                    (case parseContent api
                            (js_replaceAll resolved
                               ([CHR 0x5C, CHR 0x22] @ '':'' @ entityName @ [CHR 0x5C, CHR 0x22])
                               (js_replaceAll (stringifyEntity api e) [CHR 0x22] [CHR 0x5C, CHR 0x22])) of
                       Inl what \<Rightarrow> Inl (Thrown what)
                     | Inr content \<Rightarrow> Inr content))))"

text \<open>
  \<open>page.sort + 1\<close> on a number whose value is an integer. Numbers are binary floating
  point numbers with 53 bits: the sum is exact up to \<open>2^53\<close>, and beyond it is rounded to
  the nearest number, to the even one of two that are as near. The text of the sum is
  its decimal text (below \<open>10^21\<close>, where the text of a number has no exponent).
\<close>

definition js_successor :: "int \<Rightarrow> int" where
  "js_successor n =
     (if - (2 ^ 53) \<le> n \<and> n < 2 ^ 53 then n + 1
      else if \<bar>n\<bar> < 2 ^ 54 \<and> n mod 4 \<noteq> 0 then n + 2
      else n)"

text \<open>
  The body of the second loop after the path check, for the page at index \<open>i\<close>, from a
  disk: the calls it makes, the disk as it leaves it, and the page as it leaves it or the
  exception that ends it. The text of \<open>undefined\<close> is appended to the front matter when
  \<open>json2mdc\<close> returns nothing.
\<close>

definition processPage ::
  "Config \<Rightarrow> Collaborators \<Rightarrow> ImportingPage list \<Rightarrow> nat \<Rightarrow> ImportingPage \<Rightarrow> disk
     \<Rightarrow> effect list \<times> disk \<times> (js_error + ImportingPage)" where
  "processPage cfg api navigation i page d =
     (let lsp = localSorted (sortedPath page);
          page1 = page\<lparr>localSortedPath := Some lsp\<rparr>;
          url = apiBaseUrl cfg @ contentDetailPath api page1
      in case fetchContent api url of
           Inl what \<Rightarrow> ([Fetch url], d, Inl (Thrown what))
         | Inr fetched \<Rightarrow>
             (case pageContent api page1 fetched of
                Inl err \<Rightarrow> ([Fetch url], d, Inl err)
              | Inr content \<Rightarrow>
                  (let dir = createDir navigation i page1;
                       (marker, d1, failed1) =
                         dumpWhen (page_show page = ''never'' \<and> dir) cfg
                           ''navigation: false'' (lsp @ ''/_dir'') ''yml'' d
                   in case failed1 of
                        Some err \<Rightarrow> (Fetch url # marker, d1, Inl err)
                      | None \<Rightarrow>
                          (let lp = (if dir then lsp @ ''/0.index'' else lsp);
                               page2 = page1\<lparr>localSortedPath := Some lp, localPath := Some lp\<rparr>;
                               mdContent = getFrontMatter page2 url
                                 @ (case json2mdc (kebabHelper api) content
                                           (if hasDynamicContent page2 = Some True
                                            then Some (getEntityDefFromPath (path page2)) else None) of
                                      None \<Rightarrow> ''undefined'' | Some md \<Rightarrow> md);
                               (markup, d2, failed2) =
                                 dumpWhen (mdContent \<noteq> []) cfg mdContent lp ''md'' d1
                           in (Fetch url # marker @ markup, d2,
                               case failed2 of
                                 Some err \<Rightarrow> Inl err
                               | None \<Rightarrow>
                                   Inr (page2\<lparr>localPath :=
                                     Some (js_replace
                                       (js_replace lp
                                          (''/'' @ js_number (js_successor (page_sort page)) @ ''.'') ''/'')
                                       ''/0.index'' [])\<rparr>))))))"

text \<open>
  The second loop, which starts when the first loop has ended: a path that fails the
  check throws, an exception in the body of a page ends the loop as well, and the disk is
  left as it is then.
\<close>

fun writePages ::
  "Config \<Rightarrow> Collaborators \<Rightarrow> ImportingPage list \<Rightarrow> nat \<Rightarrow> ImportingPage list \<Rightarrow> disk
     \<Rightarrow> effect list \<times> disk \<times> (js_error + ImportingPage list)" where
  "writePages cfg api navigation i [] d = ([], d, Inr [])"
| "writePages cfg api navigation i (page # rest) d =
     (if pathCheckFails (path page) then ([], d, Inl (Error (pathCheckMessage (path page))))
      else
        (case processPage cfg api navigation i page d of
           (effs, d1, Inl err) \<Rightarrow> (effs, d1, Inl err)
         | (effs, d1, Inr page') \<Rightarrow>
             (case writePages cfg api navigation (i + 1) rest d1 of
                (effs', d2, r) \<Rightarrow>
                  (effs @ effs', d2, case r of Inl err \<Rightarrow> Inl err | Inr ps \<Rightarrow> Inr (page' # ps)))))"

definition buildPages ::
  "Config \<Rightarrow> Collaborators \<Rightarrow> ImportingPage list \<Rightarrow> (string \<rightharpoonup> entity list) \<Rightarrow> disk
     \<Rightarrow> effect list \<times> disk \<times> (js_error + ImportingPage list)" where
  "buildPages cfg api navigation resolvers d =
     (case expandPages resolvers navigation of
        Inl err \<Rightarrow> ([], d, Inl err)
      | Inr pages \<Rightarrow> writePages cfg api navigation 0 pages d)"

text \<open>Collaborators and pages for the examples.\<close>

definition example_api :: "string \<Rightarrow> Collaborators" where
  "example_api st =
     \<lparr>kebabHelper = pascalToKebab,
      contentDetailPath = (\<lambda>page. ''/content'' @ path page),
      fetchContent = (\<lambda>url. Inr (Some \<lparr>state = st, blocks = [Block (Some ''Card'') None [] []]\<rparr>)),
      stringifyContent = (\<lambda>c. Some ''{}''),
      parseContent = (\<lambda>t. Inr (Some \<lparr>state = st, blocks = [Block (Some ''Card'') None [] []]\<rparr>)),
      stringifyEntity = (\<lambda>e. ''{}'')\<rparr>"

text \<open>A disk that holds the working directory and nothing else.\<close>

definition empty_disk :: disk where
  "empty_disk = \<lparr>dirs = {[]}, files = Map.empty\<rparr>"

definition navPage :: "int \<Rightarrow> string \<Rightarrow> string \<Rightarrow> string \<Rightarrow> ImportingPage" where
  "navPage i p sp sh =
     \<lparr>page_id = i, path = p, sortedPath = sp, label = p, page_sort = 0, page_show = sh,
      access = None, localPath = None, localSortedPath = None, hasDynamicContent = None,
      entity = None\<rparr>"

definition news_navigation :: "ImportingPage list" where
  "news_navigation = [navPage 1 ''/en/news'' ''/en/1.news'' ''never'',
                      navPage 2 ''/en/news/post'' ''/en/1.news/1.post'' ''always'']"

definition city_navigation :: "ImportingPage list" where
  "city_navigation = [navPage 1 ''/en/:city.slug'' ''/en/1.:city.slug'' ''always'',
                      navPage 2 ''/en/b'' ''/en/2.b'' ''always'',
                      navPage 3 ''/en/b/c'' ''/en/2.b/1.c'' ''always'']"

definition city_resolvers :: "string \<rightharpoonup> entity list" where
  "city_resolvers = [''city'' \<mapsto> [[(''slug'', ''paris'')], [(''slug'', ''rome'')]]]"

definition pagina_navigation :: "ImportingPage list" where
  "pagina_navigation = [navPage 1 ''/en/about'' ''/en/1.about'' ''always'',
                        navPage 2 (''/en/P'' @ [CHR 0xE1] @ ''gina'') ''/en/2.pagina'' ''always'',
                        navPage 3 ''/en/contact'' ''/en/3.contact'' ''always'']"

section \<open>The run (\<open>generateContent\<close> of \<open>cms/modules/generate-content\<close>)\<close>

record HcLang =
  lang_code :: string

text \<open>
  The collaborators of the run that are not among the sources, as parameters:
  \<^item> \<open>langListPath\<close>: \<open>HC_ENDPOINTS.lang.list.path\<close>;
  \<^item> \<open>labelListPath lang\<close> and \<open>navigationListPath lang\<close>: the paths that
    \<open>resolveEndpointDefPlaceholders\<close> gives for \<open>HC_ENDPOINTS.label.list.path\<close> and
    \<open>HC_ENDPOINTS.navigation.list.path\<close>;
  \<^item> \<open>fetchLangs\<close>, \<open>fetchLabels\<close>, \<open>fetchNavigation\<close>: \<open>fetch\<close> and \<open>response.json()\<close> on a
    url: an exception of one of them, or the \<open>json.items\<close> of the response (the labels as
    their \<open>key\<close> and \<open>value\<close>, in the order of \<open>Object.values\<close>);
  \<^item> \<open>stringifyLangs\<close>, \<open>stringifyLabels\<close>, \<open>stringifyNavigation\<close>: \<open>JSON.stringify\<close>.
\<close>

record Endpoints =
  langListPath :: string
  labelListPath :: "HcLang \<Rightarrow> string"
  navigationListPath :: "HcLang \<Rightarrow> string"
  fetchLangs :: "string \<Rightarrow> string + HcLang list"
  fetchLabels :: "string \<Rightarrow> string + (string \<times> string) list"
  fetchNavigation :: "string \<Rightarrow> string + ImportingPage list"
  stringifyLangs :: "HcLang list \<Rightarrow> string"
  stringifyLabels :: "(string \<times> string) list \<Rightarrow> string"
  stringifyNavigation :: "ImportingPage list \<Rightarrow> string"

text \<open>\<open>dumpJson(json, path)\<close> with the text of \<open>JSON.stringify(json)\<close>.\<close>

definition dumpJson :: "Config \<Rightarrow> string \<Rightarrow> string \<Rightarrow> disk \<Rightarrow> effect list \<times> disk \<times> js_error option" where
  "dumpJson cfg json p d = dumpWhen True cfg json p ''json'' d"

text \<open>
  \<open>acc[item.key] = item.value\<close> on an object, whose entries are kept in the order in which
  their keys were first set. The values of the labels are strings, and setting the key
  \<open>__proto__\<close> to a string sets nothing.
\<close>

fun setProperty :: "(string \<times> string) list \<Rightarrow> string \<Rightarrow> string \<Rightarrow> (string \<times> string) list" where
  "setProperty [] k v = [(k, v)]"
| "setProperty ((k', v') # acc) k v =
     (if k' = k then (k, v) # acc else (k', v') # setProperty acc k v)"

text \<open>
  The order in which an object lists its own properties: the keys that are array indices
  (the decimal text, without leading zeros, of a number below \<open>2^32 - 1\<close>) in ascending
  order, then the other keys in the order in which they were set.
\<close>

definition digitsValue :: "string \<Rightarrow> nat" where
  "digitsValue k = foldl (\<lambda>n c. 10 * n + (of_char c - 48)) 0 k"

definition isArrayIndex :: "string \<Rightarrow> bool" where
  "isArrayIndex k \<longleftrightarrow>
     k \<noteq> [] \<and> list_all (\<lambda>c. c \<in> set ''0123456789'') k \<and> (k = ''0'' \<or> hd k \<noteq> CHR ''0'') \<and>
     digitsValue k < 2 ^ 32 - 1"

definition ownProperties :: "(string \<times> string) list \<Rightarrow> (string \<times> string) list" where
  "ownProperties entries =
     sort_key (\<lambda>kv. digitsValue (fst kv)) (filter (\<lambda>kv. isArrayIndex (fst kv)) entries)
     @ filter (\<lambda>kv. \<not> isArrayIndex (fst kv)) entries"

text \<open>The object \<open>filteredLabels\<close>, as \<open>JSON.stringify\<close> lists it.\<close>

definition filterLabels :: "string list \<Rightarrow> (string \<times> string) list \<Rightarrow> (string \<times> string) list" where
  "filterLabels excludePrefixes labels =
     ownProperties
       (foldl (\<lambda>acc (k, v). if \<not> list_ex (\<lambda>pre. prefix pre k) excludePrefixes \<and> k \<noteq> ''__proto__''
                             then setProperty acc k v else acc) [] labels)"

text \<open>
  \<open>page.label.replace(/:(.*)\./gim, '__$1__.')\<close>: from a colon, as far as the last dot of
  the same line.
\<close>

definition isLineTerminator :: "char \<Rightarrow> bool" where
  "isLineTerminator c \<longleftrightarrow> c = CHR 0x0A \<or> c = CHR 0x0D"

definition beforeLastDot :: "string \<Rightarrow> string" where
  "beforeLastDot line = rev (drop 1 (dropWhile (\<lambda>x. x \<noteq> CHR ''.'') (rev line)))"

function linkLabel :: "string \<Rightarrow> string" where
  "linkLabel [] = []"
| "linkLabel (c # cs) =
     (let line = takeWhile (\<lambda>x. \<not> isLineTerminator x) cs in
      if c = CHR '':'' \<and> CHR ''.'' \<in> set line then
        ''__'' @ beforeLastDot line @ ''__.'' @ linkLabel (drop (length (beforeLastDot line) + 1) cs)
      else c # linkLabel cs)"
  by pat_completeness auto
termination
  by (relation "measure length") auto

definition pageLink :: "ImportingPage \<Rightarrow> string" where
  "pageLink page =
     ''- ['' @ linkLabel (label page) @ ''](''
     @ (case localPath page of None \<Rightarrow> ''undefined'' | Some p \<Rightarrow> p) @ '')''"

text \<open>
  A step of the run: the calls it makes, the disk as it leaves it, and its result or the
  exception that ends the run there. \<open>andThen\<close> runs a second step after a first that
  completes.
\<close>

type_synonym 'a step = "effect list \<times> disk \<times> (js_error + 'a)"

definition andThen :: "'a step \<Rightarrow> ('a \<Rightarrow> disk \<Rightarrow> 'b step) \<Rightarrow> 'b step" where
  "andThen first second =
     (case first of
        (effs, d, Inl err) \<Rightarrow> (effs, d, Inl err)
      | (effs, d, Inr x) \<Rightarrow> (case second x d of (effs', d', r) \<Rightarrow> (effs @ effs', d', r)))"

text \<open>The calls of the run as steps.\<close>

definition fetchStep :: "string \<Rightarrow> (string \<Rightarrow> string + 'a) \<Rightarrow> disk \<Rightarrow> 'a step" where
  "fetchStep url fetcher d =
     ([Fetch url], d, case fetcher url of Inl what \<Rightarrow> Inl (Thrown what) | Inr items \<Rightarrow> Inr items)"

definition dumpStep :: "effect list \<times> disk \<times> js_error option \<Rightarrow> unit step" where
  "dumpStep dumped =
     (case dumped of (effs, d, failed) \<Rightarrow>
        (effs, d, case failed of Some err \<Rightarrow> Inl err | None \<Rightarrow> Inr ()))"

definition mkdirStep :: "string list \<Rightarrow> disk \<Rightarrow> unit step" where
  "mkdirStep segments d =
     (case mkdirRecursive (joinPath segments) d of
        Inl err \<Rightarrow> ([Mkdir segments], d, Inl err)
      | Inr d' \<Rightarrow> ([Mkdir segments], d', Inr ()))"

text \<open>
  The body of the loop over the languages for one language: the links of its pages. In
  this module no resolver is registered (the registration is commented out), so
  \<open>buildPages\<close> receives the empty object.
\<close>

definition langStep ::
  "Config \<Rightarrow> Collaborators \<Rightarrow> Endpoints \<Rightarrow> string list \<Rightarrow> HcLang \<Rightarrow> disk \<Rightarrow> string list step" where
  "langStep cfg api ends excl lang d =
     andThen (mkdirStep (contentBasePath cfg @ [lang_code lang]) d) (\<lambda>_ d.
     andThen (fetchStep (apiBaseUrl cfg @ labelListPath ends lang) (fetchLabels ends) d) (\<lambda>labels d.
     andThen (dumpStep (dumpJson cfg (stringifyLabels ends (filterLabels excl labels))
                (joinText (apiBasePath cfg @ [lang_code lang, ''labels''])) d)) (\<lambda>_ d.
     andThen (fetchStep (apiBaseUrl cfg @ navigationListPath ends lang) (fetchNavigation ends) d) (\<lambda>nav d.
     andThen (dumpStep (dumpJson cfg (stringifyNavigation ends nav)
                (joinText (apiBasePath cfg @ [lang_code lang, ''navigation''])) d)) (\<lambda>_ d.
     andThen (buildPages cfg api nav Map.empty d) (\<lambda>pages d.
       ([], d, Inr (map pageLink pages))))))))"

text \<open>The loop over the languages, with the variable \<open>pageLinks\<close>.\<close>

fun langLoop ::
  "Config \<Rightarrow> Collaborators \<Rightarrow> Endpoints \<Rightarrow> string list \<Rightarrow> HcLang list \<Rightarrow> string list \<Rightarrow> disk
     \<Rightarrow> string list step" where
  "langLoop cfg api ends excl [] pageLinks d = ([], d, Inr pageLinks)"
| "langLoop cfg api ends excl (lang # rest) pageLinks d =
     andThen (langStep cfg api ends excl lang d)
       (\<lambda>links d. langLoop cfg api ends excl rest (pageLinks @ links) d)"

text \<open>
  \<open>generateContent\<close>, from the value of the module variable \<open>config\<close> and a disk: the new
  value of the variable, the calls of the run, the disk as the run leaves it, and the
  exception if the run ends with one.
\<close>

definition generateContent ::
  "Collaborators \<Rightarrow> Endpoints \<Rightarrow> Config \<Rightarrow> string \<Rightarrow> string option \<Rightarrow> string list option \<Rightarrow> disk
     \<Rightarrow> Config \<times> unit step" where
  "generateContent api ends cfg0 baseUrl contentRootFolder excludeLabelKeyPrefixes d0 =
     (let cfg1 = cfg0\<lparr>apiBaseUrl := baseUrl\<rparr>;
          cfg = (case contentRootFolder of
                   None \<Rightarrow> cfg1
                 | Some folder \<Rightarrow> if folder \<noteq> [] then cfg1\<lparr>contentBasePath := [folder]\<rparr> else cfg1);
          excl = ''hc_'' # (case excludeLabelKeyPrefixes of None \<Rightarrow> [] | Some ps \<Rightarrow> ps)
      in (cfg,
          andThen ([Rm (contentBasePath cfg)], rmRecursive (joinPath (contentBasePath cfg)) d0, Inr ()) (\<lambda>_ d.
          andThen (fetchStep (apiBaseUrl cfg @ langListPath ends) (fetchLangs ends) d) (\<lambda>langs d.
          andThen (dumpStep (dumpJson cfg (stringifyLangs ends langs)
                     (joinText (apiBasePath cfg @ [''langs''])) d)) (\<lambda>_ d.
          andThen (langLoop cfg api ends excl langs [] d) (\<lambda>pageLinks d.
            dumpStep (dumpWhen True cfg (js_join [CHR 0x0A] pageLinks) ''index'' ''md'' d)))))))"

text \<open>
  A step from a disk writes only what it dumps: a file that is on the disk after the step
  was there before it, or is the target of a \<open>dumpFile\<close> among its calls.
\<close>

definition writesOnlyDumps :: "Config \<Rightarrow> disk \<Rightarrow> effect list \<times> disk \<times> 'a \<Rightarrow> bool" where
  "writesOnlyDumps cfg d s \<longleftrightarrow>
     (\<forall>p. files (fst (snd s)) p \<noteq> None \<longrightarrow>
        files d p \<noteq> None \<or>
        (\<exists>c pa ext. DumpFile c pa ext \<in> set (fst s) \<and> dumpTarget cfg pa ext = p))"

text \<open>Endpoints and a disk for the examples: the disk holds a file of an earlier run.\<close>

definition stale_disk :: disk where
  "stale_disk =
     \<lparr>dirs = {[], [''content''], [''content'', ''en'']},
      files = [[''content'', ''en'', ''old.md''] \<mapsto> ''stale'']\<rparr>"


definition example_endpoints :: Endpoints where
  "example_endpoints =
     \<lparr>langListPath = ''/langs'',
      labelListPath = (\<lambda>lang. ''/labels/'' @ lang_code lang),
      navigationListPath = (\<lambda>lang. ''/navigation/'' @ lang_code lang),
      fetchLangs = (\<lambda>url. Inr [\<lparr>lang_code = ''en''\<rparr>]),
      fetchLabels = (\<lambda>url. Inr [(''hc_admin'', ''Admin''), (''title'', ''Title'')]),
      fetchNavigation = (\<lambda>url. Inr news_navigation),
      stringifyLangs = (\<lambda>langs. ''[langs]''),
      stringifyLabels = (\<lambda>labels. js_join '','' (map fst labels)),
      stringifyNavigation = (\<lambda>nav. ''[navigation]'')\<rparr>"

section \<open>Properties of the navigation tree reconstructor\<close>

lemmas nav_eval = loadNavigation_def forest_def init_state_def navStep_def resetParent_def pushItem_def
      reassignParent_def hasChild_def isFirstLevel_def mkPage_def toItem_def Let_def

lemma js_includes_sublist: "js_includes s sub \<longleftrightarrow> sublist sub s"
  by (induction s) (auto simp: sublist_Cons_right)

lemma js_includes_iff: "js_includes s sub \<longleftrightarrow> (\<exists>pre suf. s = pre @ sub @ suf)"
  by (simp add: js_includes_sublist sublist_def)

lemma hasChild_iff:
  "hasChild page n \<longleftrightarrow>
     path n \<noteq> path page \<and> length (path page) < length (path n) \<and>
     (\<exists>pre suf. path n = pre @ path page @ suf)"
  by (simp add: hasChild_def js_includes_iff)

lemma parent_pushItem: "parent (pushItem page st) = parent st"
  by (simp add: pushItem_def Let_def split: option.splits)

lemma length_heap_pushItem: "length (heap (pushItem page st)) = Suc (length (heap st))"
  by (simp add: pushItem_def Let_def split: option.splits)

lemma heap_resetParent: "heap (resetParent page st) = heap st"
  by (simp add: resetParent_def)

lemma parent_resetParent:
  "parent (resetParent page st) = (if isFirstLevel page then None else parent st)"
  by (simp add: resetParent_def)

text \<open>
  C5, as the code has it. The step of the loop over a page, from a state whose cursor is an
  object of the store, makes the cursor a new object of this page (the second object that
  the step allocates) exactly when there is a next page whose path differs from the page's
  path, is longer, and contains it as a contiguous run anywhere; otherwise the cursor is
  what the first-level test left: empty on a first-level page, unchanged on any other.
\<close>

theorem C5_parent_cursor:
  assumes "\<forall>a. parent st = Some a \<longrightarrow> a < length (heap st)"
  shows "(if \<exists>n. next = Some n \<and> path n \<noteq> path page \<and> length (path page) < length (path n) \<and>
               (\<exists>pre suf. path n = pre @ path page @ suf)
          then parent (navStep page next st) = Some (Suc (length (heap st))) \<and>
               heap (navStep page next st) ! Suc (length (heap st)) = (toItem page, None)
          else parent (navStep page next st) = (if isFirstLevel page then None else parent st) \<and>
               parent (navStep page next st) \<noteq> Some (Suc (length (heap st))))"
proof (cases "\<exists>n. next = Some n \<and> hasChild page n")
  case True
  then obtain n where n: "next = Some n" "hasChild page n" by blast
  have "parent (navStep page next st) = Some (Suc (length (heap st)))"
    using n by (simp add: navStep_def reassignParent_def Let_def length_heap_pushItem heap_resetParent)
  moreover have "heap (navStep page next st) ! Suc (length (heap st)) = (toItem page, None)"
    using n by (simp add: navStep_def reassignParent_def Let_def nth_append length_heap_pushItem heap_resetParent)
  ultimately show ?thesis using True by (auto simp: hasChild_iff)
next
  case False
  then have eq: "navStep page next st = pushItem page (resetParent page st)"
    by (auto simp: navStep_def reassignParent_def split: option.splits)
  have "parent (navStep page next st) = (if isFirstLevel page then None else parent st)"
    by (simp add: eq parent_pushItem parent_resetParent)
  moreover have "parent (navStep page next st) \<noteq> Some (Suc (length (heap st)))"
    using assms by (auto simp: eq parent_pushItem parent_resetParent)
  ultimately show ?thesis using False by (auto simp: hasChild_iff)
qed

theorem C5_parent_cursor_witness:
  "parent (navStep (mkPage 1 ''/en/a'') (Some (mkPage 2 ''/en/a/x'')) init_state) = Some (Suc 0) \<and>
   heap (navStep (mkPage 1 ''/en/a'') (Some (mkPage 2 ''/en/a/x'')) init_state) ! Suc 0
     = (toItem (mkPage 1 ''/en/a''), None)"
proof -
  have h: "\<forall>a. parent init_state = Some a \<longrightarrow> a < length (heap init_state)"
    by (simp add: init_state_def)
  have c: "\<exists>n. Some (mkPage 2 ''/en/a/x'') = Some n \<and> path n \<noteq> path (mkPage 1 ''/en/a'') \<and>
      length (path (mkPage 1 ''/en/a'')) < length (path n) \<and>
      (\<exists>pre suf. path n = pre @ path (mkPage 1 ''/en/a'') @ suf)"
    by (simp add: mkPage_def) (rule exI[of _ "[]"], simp)
  show ?thesis
    using C5_parent_cursor[OF h, of "Some (mkPage 2 ''/en/a/x'')" "mkPage 1 ''/en/a''"] c
    by (simp add: init_state_def)
qed

text \<open>
  C5 as the specification states it asks for an extension by path segments. After \<open>/en/a\<close>
  the next page \<open>/en/ab\<close> makes \<open>/en/a\<close> the cursor although \<open>/en/ab\<close> does not start
  with \<open>/en/a/\<close>.
\<close>

theorem C5_counterexample:
  "parent (navStep (mkPage 1 ''/en/a'') (Some (mkPage 2 ''/en/ab'')) init_state) = Some 1
   \<and> \<not> prefix (path (mkPage 1 ''/en/a'') @ ''/'') (path (mkPage 2 ''/en/ab''))"
  by (simp add: nav_eval)

text \<open>
  An effect of the containment test on a sorted list: \<open>/en/a/xy\<close> follows its sibling
  \<open>/en/a/x\<close>, which becomes a cursor that no array holds, and \<open>/en/a/xy\<close> is lost.
\<close>

lemma sibling_with_common_prefix_dropped:
  "map_sum id (\<lambda>r. forest (nav_store r))
     (loadNavigation (Some [mkPage 0 ''/en'', mkPage 1 ''/en/a'', mkPage 2 ''/en/a/x'',
        mkPage 3 ''/en/a/xy'']))
   = Inr (Some [Node \<lparr>pageId = 1, item_path = ''/en/a'', item_label = ''/en/a'', item_sort = 0,
                       item_show = ''always''\<rparr>
                  (Some [Node \<lparr>pageId = 2, item_path = ''/en/a/x'', item_label = ''/en/a/x'',
                                item_sort = 0, item_show = ''always''\<rparr> None])])"
  by (simp add: nav_eval)

text \<open>
  C6. On the sorted list with the paths \<open>/en\<close> (the root), \<open>/en/a\<close>, \<open>/en/a/x\<close>, \<open>/en/b\<close>
  the reconstructor returns two top-level nodes: the node of \<open>/en/a\<close>, whose only child is
  the node of \<open>/en/a/x\<close>, and the node of \<open>/en/b\<close>, without children. Each node holds
  the id, path, label, sort and show of its page. The root is not in the forest (it is the
  home page), and the two top-level paths are first-level paths: they have two
  separators, the other two paths have one and three.
\<close>

theorem C6_navigation_example:
  "map_sum id (\<lambda>r. (homePage r, forest (nav_store r)))
     (loadNavigation (Some
        [\<lparr>page_id = 10, path = ''/en'', sortedPath = ''/en'', label = ''Home'', page_sort = 0,
          page_show = ''always'', access = None\<rparr>,
         \<lparr>page_id = 11, path = ''/en/a'', sortedPath = ''/en/1.a'', label = ''A'', page_sort = 0,
          page_show = ''always'', access = None\<rparr>,
         \<lparr>page_id = 12, path = ''/en/a/x'', sortedPath = ''/en/1.a/1.x'', label = ''X'', page_sort = 0,
          page_show = ''active'', access = Some ''all''\<rparr>,
         \<lparr>page_id = 13, path = ''/en/b'', sortedPath = ''/en/2.b'', label = ''B'', page_sort = 1,
          page_show = ''never'', access = None\<rparr>]))
   = Inr (Some \<lparr>page_id = 10, path = ''/en'', sortedPath = ''/en'', label = ''Home'', page_sort = 0,
                 page_show = ''always'', access = None\<rparr>,
          Some [Node \<lparr>pageId = 11, item_path = ''/en/a'', item_label = ''A'', item_sort = 0,
                       item_show = ''always''\<rparr>
                  (Some [Node \<lparr>pageId = 12, item_path = ''/en/a/x'', item_label = ''X'', item_sort = 0,
                                item_show = ''active''\<rparr> None]),
                Node \<lparr>pageId = 13, item_path = ''/en/b'', item_label = ''B'', item_sort = 1,
                       item_show = ''never''\<rparr> None])
   \<and> isFirstLevel (mkPage 11 ''/en/a'') \<and> isFirstLevel (mkPage 13 ''/en/b'')
   \<and> \<not> isFirstLevel (mkPage 10 ''/en'') \<and> \<not> isFirstLevel (mkPage 12 ''/en/a/x'')
   \<and> map (\<lambda>p. length (filter (\<lambda>c. c = CHR ''/'') p)) [''/en'', ''/en/a'', ''/en/a/x'', ''/en/b'']
       = [1, 2, 3, 2]"
  by (simp add: nav_eval)

subsection \<open>The invariant of the loop\<close>


lemma nav_inv_nav: "nav_inv st \<Longrightarrow> a \<in> set (nav_list st) \<Longrightarrow> a < length (heap st)"
  unfolding nav_inv_def by blast














text \<open>\<open>_loadNavigation\<close> returns on every list that is not empty.\<close>

lemma loadNavigation_returns:
  "pl \<noteq> [] \<Longrightarrow> \<exists>r. loadNavigation (Some pl) = Inr r"
  by (cases pl) (simp_all add: loadNavigation_def)

text \<open>
  On this list the page below the second-level page \<open>/en/a/x\<close> is lost, and so is the
  later page \<open>/en/a/z\<close> of the same first-level section: only a first-level page resets
  the cursor.
\<close>

lemma deep_page_dropped:
  "map_sum id (\<lambda>r. forest (nav_store r))
     (loadNavigation (Some [mkPage 0 ''/en'', mkPage 1 ''/en/a'', mkPage 2 ''/en/a/x'',
        mkPage 3 ''/en/a/x/y'', mkPage 4 ''/en/a/z'']))
   = Inr (Some [Node \<lparr>pageId = 1, item_path = ''/en/a'', item_label = ''/en/a'', item_sort = 0,
                       item_show = ''always''\<rparr>
                  (Some [Node \<lparr>pageId = 2, item_path = ''/en/a/x'', item_label = ''/en/a/x'',
                                item_sort = 0, item_show = ''always''\<rparr> None])])"
  by (simp add: nav_eval)

subsection \<open>Pages that are lost\<close>






lemma fields_resetParent: "heap (resetParent page st) ! a = heap st ! a"
  by (simp add: resetParent_def)






lemma findIndex_None_iff: "findIndex f xs = None \<longleftrightarrow> (\<forall>x\<in>set xs. \<not> f x)"
  by (induction xs) auto

text \<open>
  The look-up of the new cursor: when no object of the top-level array has the
  \<open>pageId\<close> of the page, \<open>findIndex\<close> gives \<open>-1\<close>, the array keeps its elements, and the
  cursor is an object that the array does not hold.
\<close>

lemma cursor_not_found:
  assumes inv: "nav_inv st" and child: "hasChild page n"
    and none: "\<forall>x\<in>set (nav_list st). pageId (fst (heap st ! x)) \<noteq> page_id page"
  shows "nav_list (reassignParent page (Some n) st) = nav_list st
       \<and> parent (reassignParent page (Some n) st) = Some (length (heap st))
       \<and> length (heap st) \<notin> set (nav_list st)"
proof -
  have "\<forall>x\<in>set (nav_list st).
      pageId (fst ((heap st @ [(toItem page, None)]) ! x)) \<noteq> page_id page"
    using none nav_inv_nav[OF inv] by (simp add: nth_append)
  then have "findIndex (\<lambda>x. pageId (fst ((heap st @ [(toItem page, None)]) ! x)) = page_id page)
      (nav_list st) = None"
    by (simp add: findIndex_None_iff)
  moreover have "length (heap st) \<notin> set (nav_list st)"
    using nav_inv_nav[OF inv] by auto
  ultimately show ?thesis using child by (simp add: reassignParent_def Let_def)
qed


subsection \<open>The look-up of the cursor and the depth of the forest\<close>














section \<open>Properties of the entity placeholder expander\<close>

text \<open>A string without a placeholder is returned as it is.\<close>

lemma resolveInputWithEntity_no_placeholder:
  "placeHolderMatches input = [] \<Longrightarrow> resolveInputWithEntity input entityName e = Inr input"
  by (simp add: resolveInputWithEntity_def)

text \<open>
  C7. The expander replaces the matches one after the other, each with \<open>replaceAll\<close> on the
  result so far. The text of one placeholder can start the text of another:
  \<open>:city.label\<close> starts \<open>:city.label_short\<close>. The pass for \<open>:city.label\<close> then rewrites
  the start of the longer placeholder, and the occurrence of \<open>:city.label_short\<close> does not
  receive the value of \<open>label_short\<close>. (The \<open>base\<close> module has the same function.)
\<close>

theorem C7_prefix_placeholder:
  "placeHolderMatches '':city.label (:city.label_short)'' = ['':city.label'', '':city.label_short''] \<and>
   resolveInputWithEntity '':city.label (:city.label_short)'' ''city''
     [(''label'', ''Lausanne''), (''label_short'', ''LS'')] = Inr ''Lausanne (Lausanne_short)''"
  by code_simp

text \<open>
  The same call has two more effects on a placeholder. The value is used as the
  replacement text of \<open>replaceAll\<close>, in which \<open>$&\<close> stands for the matched text: a value that
  holds \<open>$&\<close> leaves the placeholder in place. And a placeholder of another entity is
  looked up under its whole text, which the record does not have.
\<close>

lemma value_with_dollar_pattern:
  "resolveInputWithEntity ''/en/:city.slug'' ''city'' [(''slug'', ''a$&b'')]
     = Inr ''/en/a:city.slugb''"
  by code_simp

lemma placeholder_of_other_entity:
  "resolveInputWithEntity ''/en/:event.slug'' ''city'' [(''slug'', ''lausanne'')]
     = Inr ''/en/undefined''"
  by code_simp

text \<open>The example of the comment in the source: \<open>:city.label\<close> becomes \<open>lausanne\<close>.\<close>

lemma placeholder_replaced:
  "resolveInputWithEntity ''/en/:city.label/about-:city.label'' ''city'' [(''label'', ''lausanne'')]
     = Inr ''/en/lausanne/about-lausanne''"
  by code_simp

text \<open>
  A placeholder whose field is the name of a function that every object inherits: the
  function is called as a replacer. \<open>constructor\<close> leaves the placeholder as it is,
  \<open>toString\<close> gives its text for \<open>undefined\<close>, and \<open>valueOf\<close> throws.
\<close>

lemma placeholder_of_inherited_name:
  "resolveInputWithEntity ''/en/:city.constructor'' ''city'' [(''slug'', ''paris'')]
     = Inr ''/en/:city.constructor''
   \<and> resolveInputWithEntity ''/en/:city.toString'' ''city'' [(''slug'', ''paris'')]
     = Inr ''/en/[object Undefined]''
   \<and> resolveInputWithEntity ''/en/:city.valueOf'' ''city'' [(''slug'', ''paris'')]
     = Inl TypeError"
  by code_simp

section \<open>Properties of the placeholder resolver\<close>

lemma replaceInString_no_token: "tokenMatches s = [] \<Longrightarrow> replaceInString g s = s"
  by (simp add: replaceInString_def)

text \<open>
  C8. When the output of \<open>resolvePlaceholders\<close> on a template string holds no token, a
  second run on that output, with the same context, returns it unchanged. No condition
  on the values of the context is needed.
\<close>

theorem C8_idempotent:
  assumes "tokenMatches (resolvePlaceholders g (Template t)) = []"
  shows "resolvePlaceholders g (Template (resolvePlaceholders g (Template t)))
         = resolvePlaceholders g (Template t)"
proof (cases "t = []")
  case True
  then show ?thesis by (simp add: resolvePlaceholders_def)
next
  case False
  then have r: "resolvePlaceholders g (Template t) = replaceInString g t"
    by (simp add: resolvePlaceholders_def)
  have "replaceInString g (replaceInString g t) = replaceInString g t"
    using assms unfolding r by (rule replaceInString_no_token)
  then show ?thesis by (simp add: resolvePlaceholders_def r)
qed

theorem C8_idempotent_witness:
  "resolvePlaceholders page_values (Template ''/{lang.code}/pages/{page.id}'') = ''/en/pages/42'' \<and>
   tokenMatches ''/en/pages/42'' = [] \<and>
   resolvePlaceholders page_values (Template ''/en/pages/42'') = ''/en/pages/42''"
proof -
  have r: "resolvePlaceholders page_values (Template ''/{lang.code}/pages/{page.id}'') = ''/en/pages/42''"
    by code_simp
  have t: "tokenMatches (resolvePlaceholders page_values (Template ''/{lang.code}/pages/{page.id}'')) = []"
    unfolding r by code_simp
  show ?thesis using C8_idempotent[OF t] t unfolding r by simp
qed

section \<open>Properties of the block serializer\<close>

lemma padding_single: "padding n [c] = replicate n c"
  by (simp add: padding_def)

lemma padding_spaces: "padding n ''  '' = replicate n CHR '' ''"
proof -
  have "concat (replicate n ''  '') = replicate (2 * n) CHR '' ''"
    by (induction n) simp_all
  then show ?thesis by (simp add: padding_def min_def)
qed

text \<open>The indentation of a depth is that many spaces.\<close>

lemma indent_spaces: "indent depth = replicate depth CHR '' ''"
  by (simp add: indent_def js_padStart_def padding_spaces)

lemma colon_run: "js_padEnd [] n '':'' = replicate n CHR '':''"
  by (simp add: js_padEnd_def padding_single)

text \<open>
  C3, as the code has it. A block with children that is not a raw text block (a block
  without type whose text is not empty is emitted as its text alone) gives an opening
  line: the indentation of its depth, a run of \<open>depth + 2\<close> colons (two at depth 0), the
  component name and the properties; then the lines of its children at \<open>depth + 1\<close>, in
  order; then a closing line: the same indentation and a run of \<open>depth + 2\<close> colons. A
  block without children gives exactly one line.
\<close>

theorem C3_block_shape:
  "(children \<noteq> [] \<and> \<not> isRawText ty txt \<longrightarrow>
      processBlock toName depth (Block ty txt props children)
        = [indent depth @ replicate (depth + 2) CHR '':'' @ toName ty @ processBlockProps props]
          @ concat (map (processBlock toName (depth + 1)) children)
          @ [indent depth @ replicate (depth + 2) CHR '':''])
   \<and> length (processBlock toName depth (Block ty txt props [])) = 1"
  by (simp add: mdComponentName_def isInlineComponent_def colon_run)

theorem C3_block_shape_witness:
  "[Block (Some ''Leaf'') None [] []] \<noteq> [] \<and> \<not> isRawText (Some ''Box'') None \<and>
   processBlock pascalToKebab 1 (Block (Some ''Box'') None [] [Block (Some ''Leaf'') None [] []])
     = [indent 1 @ replicate (1 + 2) CHR '':'' @ pascalToKebab (Some ''Box'') @ processBlockProps []]
       @ concat (map (processBlock pascalToKebab (1 + 1)) [Block (Some ''Leaf'') None [] []])
       @ [indent 1 @ replicate (1 + 2) CHR '':'']"
proof -
  have h: "[Block (Some ''Leaf'') None [] []] \<noteq> [] \<and> \<not> isRawText (Some ''Box'') None"
    by (simp add: isRawText_def)
  show ?thesis
    using h C3_block_shape[of "[Block (Some ''Leaf'') None [] []]" "Some ''Box''" None pascalToKebab 1 "[]"]
    by blast
qed

text \<open>
  C3 as the specification states it: three colons at depth 0 and two spaces of indentation
  for each level. At depth 0 the fence of a container has two colons, and the line of
  its child at depth 1 is indented by one space: \<open>padStart(depth, '  ')\<close> fills up to the
  length \<open>depth\<close>.
\<close>

theorem C3_counterexample:
  "processBlock pascalToKebab 0 (Block (Some ''Card'') None [] [Block (Some ''CardItem'') None [] []])
     = [''::card'', '' :card-item'', ''::'']
   \<and> indent 1 = '' '' \<and> indent 2 = ''  ''"
  by code_simp

section \<open>Properties of page expansion and layout\<close>

subsection \<open>The path check and the loop\<close>

lemma pathCheckMatches_head:
  "pathCheckMatches s = m # ms \<Longrightarrow> m \<noteq> [] \<and> (\<forall>c\<in>set m. isPathChar c)"
proof (induction s rule: pathCheckMatches.induct)
  case 1
  then show ?case by simp
next
  case (2 c cs)
  show ?case
  proof (cases "isPathChar c")
    case True
    then have "m = c # takeWhile isPathChar cs" using "2.prems" by simp
    moreover have "\<forall>x\<in>set (takeWhile isPathChar cs). isPathChar x"
      using set_takeWhileD by metis
    ultimately show ?thesis using True by simp
  next
    case False
    then have "pathCheckMatches cs = m # ms" using "2.prems" by simp
    then show ?thesis using "2.IH"(2)[OF False] by blast
  qed
qed

lemma pathCheckMatches_all:
  assumes "s \<noteq> []" and "\<forall>c\<in>set s. isPathChar c"
  shows "pathCheckMatches s = [s]"
proof -
  obtain c cs where s: "s = c # cs" using assms(1) by (cases s) auto
  have t: "takeWhile isPathChar cs = cs" and d: "dropWhile isPathChar cs = []"
    using assms(2) by (simp_all add: s)
  have "isPathChar c" using assms(2) by (simp add: s)
  then show ?thesis unfolding s by (simp only: pathCheckMatches.simps t d if_True)
qed

lemma pathCheckFails_iff:
  "pathCheckFails p \<longleftrightarrow> p = [] \<or> (\<exists>c\<in>set p. \<not> isPathChar c)"
proof (cases "p \<noteq> [] \<and> (\<forall>c\<in>set p. isPathChar c)")
  case True
  then show ?thesis by (simp add: pathCheckFails_def pathCheckMatches_all)
next
  case False
  have "pathCheckFails p"
  proof (cases "pathCheckMatches p")
    case Nil
    then show ?thesis by (simp add: pathCheckFails_def)
  next
    case (Cons m ms)
    then have "m \<noteq> [] \<and> (\<forall>c\<in>set m. isPathChar c)" by (rule pathCheckMatches_head)
    then have "m \<noteq> p" using False by auto
    then show ?thesis by (simp add: pathCheckFails_def Cons)
  qed
  then show ?thesis using False by auto
qed

text \<open>The exceptions of the steps: none of them is the validation error.\<close>

lemma replaceAllBy_error: "replaceAllBy s pat v = Inl err \<Longrightarrow> err = TypeError"
  by (auto simp: replaceAllBy_def callInherited_def split: property.splits if_splits sum.splits)

lemma resolveLoop_error:
  "resolveLoop input entityName e ms resolved = Inl err \<Longrightarrow> err = TypeError"
proof (induction ms arbitrary: resolved)
  case Nil
  then show ?case by simp
next
  case (Cons m ms)
  then show ?case
    by (auto simp: Let_def dest: replaceAllBy_error split: sum.splits)
qed

lemma resolveInputWithEntity_error:
  "resolveInputWithEntity input entityName e = Inl err \<Longrightarrow> err = TypeError"
  unfolding resolveInputWithEntity_def
  by (cases "placeHolderMatches input") (auto dest: resolveLoop_error simp del: resolveLoop.simps)

lemma resolvePageWithEntity_error:
  "resolvePageWithEntity entityName page e = Inl err \<Longrightarrow> err = TypeError"
  by (auto simp: resolvePageWithEntity_def dest: resolveInputWithEntity_error split: sum.splits)

lemma resolveEntities_error:
  "resolveEntities entityName page es = Inl err \<Longrightarrow> err = TypeError"
  by (induction es) (auto dest: resolvePageWithEntity_error split: sum.splits)

text \<open>The expansion of the dynamic pages throws nothing but a \<open>TypeError\<close>.\<close>

lemma expandPages_error: "expandPages res nav = Inl e \<Longrightarrow> e = TypeError"
  by (induction nav)
    (auto simp: expandPage_def dest: resolveEntities_error split: sum.splits if_splits option.splits)

lemma mkdirRecursive_error: "mkdirRecursive p d = Inl err \<Longrightarrow> \<exists>code. err = SystemError code"
  by (auto simp: mkdirRecursive_def split: if_splits)

lemma writeFile_error: "writeFile p c d = Inl err \<Longrightarrow> \<exists>code. err = SystemError code"
  by (auto simp: writeFile_def split: if_splits)

lemma dumpFile_error: "dumpFile cfg c p ext d = (d', Some err) \<Longrightarrow> \<exists>code. err = SystemError code"
  by (auto simp: dumpFile_def dest: mkdirRecursive_error writeFile_error split: sum.splits)

lemma dumpWhen_error:
  "dumpWhen cond cfg c p ext d = (effs, d', Some err) \<Longrightarrow> \<exists>code. err = SystemError code"
  by (auto simp: dumpWhen_def dest: dumpFile_error split: if_splits prod.splits)

lemma pageContent_error:
  "pageContent api page fetched = Inl err \<Longrightarrow> err = TypeError \<or> (\<exists>what. err = Thrown what)"
  by (auto simp: pageContent_def dest: resolveInputWithEntity_error
      split: option.splits prod.splits sum.splits)

lemma processPage_error:
  assumes "processPage cfg api nav i page d = (effs, d', Inl err)"
  shows "err \<noteq> Error msg"
proof -
  have "err = TypeError \<or> (\<exists>what. err = Thrown what) \<or> (\<exists>code. err = SystemError code)"
    using assms unfolding processPage_def Let_def
    by (auto dest: pageContent_error dumpWhen_error split: sum.splits prod.splits option.splits)
  then show ?thesis by auto
qed

subsection \<open>The second loop\<close>

text \<open>
  The loop over a list of pages completes exactly when every path passes the check and
  the step of every page completes, each from the disk that the step before it left: the
  calls of the loop are those of the steps, in order.
\<close>

lemma writePages_Inr_iff:
  "writePages cfg api nav i pages d = (effs, d', Inr out) \<longleftrightarrow>
     (\<forall>q\<in>set pages. \<not> pathCheckFails (path q)) \<and>
     (\<exists>ds es. length ds = Suc (length pages) \<and> length es = length pages \<and>
        length out = length pages \<and> ds ! 0 = d \<and> ds ! length pages = d' \<and> effs = concat es \<and>
        (\<forall>j<length pages.
           processPage cfg api nav (i + j) (pages ! j) (ds ! j) = (es ! j, ds ! Suc j, Inr (out ! j))))"
proof (induction pages arbitrary: i d effs out)
  case Nil
  show ?case
  proof
    assume "writePages cfg api nav i [] d = (effs, d', Inr out)"
    then have "effs = []" "d' = d" "out = []" by simp_all
    then show "(\<forall>q\<in>set []. \<not> pathCheckFails (path q)) \<and>
     (\<exists>ds es. length ds = Suc (length []) \<and> length es = length [] \<and>
        length out = length [] \<and> ds ! 0 = d \<and> ds ! length [] = d' \<and> effs = concat es \<and>
        (\<forall>j<length ([] :: ImportingPage list).
           processPage cfg api nav (i + j) ([] ! j) (ds ! j) = (es ! j, ds ! Suc j, Inr (out ! j))))"
      by (intro conjI exI[of _ "[d]"] exI[of _ "[]"]) simp_all
  next
    assume "(\<forall>q\<in>set []. \<not> pathCheckFails (path q)) \<and>
     (\<exists>ds es. length ds = Suc (length []) \<and> length es = length [] \<and>
        length out = length [] \<and> ds ! 0 = d \<and> ds ! length [] = d' \<and> effs = concat es \<and>
        (\<forall>j<length ([] :: ImportingPage list).
           processPage cfg api nav (i + j) ([] ! j) (ds ! j) = (es ! j, ds ! Suc j, Inr (out ! j))))"
    then show "writePages cfg api nav i [] d = (effs, d', Inr out)" by auto
  qed
next
  case (Cons page rest)
  show ?case
  proof
    assume w: "writePages cfg api nav i (page # rest) d = (effs, d', Inr out)"
    have ok: "\<not> pathCheckFails (path page)"
      using w by (auto split: if_splits)
    obtain e1 d1 r1 where p1: "processPage cfg api nav i page d = (e1, d1, r1)"
      by (cases "processPage cfg api nav i page d") auto
    obtain page' where r1: "r1 = Inr page'"
      using w ok p1 by (cases r1) auto
    obtain e2 d2 r2 where w2: "writePages cfg api nav (i + 1) rest d1 = (e2, d2, r2)"
      by (cases "writePages cfg api nav (i + 1) rest d1") auto
    obtain ps where r2: "r2 = Inr ps"
      using w ok p1 r1 w2 by (cases r2) auto
    have res: "effs = e1 @ e2" "d' = d2" "out = page' # ps"
      using w ok p1 r1 w2 r2 by simp_all
    from Cons.IH[of "i + 1" d1 e2 ps] w2 r2 res(2)
    obtain ds es where rest: "\<forall>q\<in>set rest. \<not> pathCheckFails (path q)"
      and ch: "length ds = Suc (length rest)" "length es = length rest" "length ps = length rest"
        "ds ! 0 = d1" "ds ! length rest = d'" "e2 = concat es"
        "\<forall>j<length rest.
           processPage cfg api nav (i + 1 + j) (rest ! j) (ds ! j) = (es ! j, ds ! Suc j, Inr (ps ! j))"
      by auto
    have steps: "\<forall>j<length (page # rest).
           processPage cfg api nav (i + j) ((page # rest) ! j) ((d # ds) ! j)
             = ((e1 # es) ! j, (d # ds) ! Suc j, Inr (out ! j))"
    proof (intro allI impI)
      fix j assume j: "j < length (page # rest)"
      show "processPage cfg api nav (i + j) ((page # rest) ! j) ((d # ds) ! j)
             = ((e1 # es) ! j, (d # ds) ! Suc j, Inr (out ! j))"
      proof (cases j)
        case 0
        then show ?thesis using p1 r1 res(3) ch(4) by simp
      next
        case (Suc k)
        then have "k < length rest" using j by simp
        then show ?thesis using ch(7) Suc res(3) by simp
      qed
    qed
    show "(\<forall>q\<in>set (page # rest). \<not> pathCheckFails (path q)) \<and>
     (\<exists>ds es. length ds = Suc (length (page # rest)) \<and> length es = length (page # rest) \<and>
        length out = length (page # rest) \<and> ds ! 0 = d \<and> ds ! length (page # rest) = d' \<and>
        effs = concat es \<and>
        (\<forall>j<length (page # rest).
           processPage cfg api nav (i + j) ((page # rest) ! j) (ds ! j)
             = (es ! j, ds ! Suc j, Inr (out ! j))))"
    proof (intro conjI exI[of _ "d # ds"] exI[of _ "e1 # es"])
      show "\<forall>q\<in>set (page # rest). \<not> pathCheckFails (path q)" using ok rest by simp
      show "length (d # ds) = Suc (length (page # rest))" using ch(1) by simp
      show "length (e1 # es) = length (page # rest)" using ch(2) by simp
      show "length out = length (page # rest)" using res(3) ch(3) by simp
      show "(d # ds) ! 0 = d" by simp
      show "(d # ds) ! length (page # rest) = d'" using ch(5) by simp
      show "effs = concat (e1 # es)" using res(1) ch(6) by simp
      show "\<forall>j<length (page # rest).
           processPage cfg api nav (i + j) ((page # rest) ! j) ((d # ds) ! j)
             = ((e1 # es) ! j, (d # ds) ! Suc j, Inr (out ! j))"
        by (rule steps)
    qed
  next
    assume a: "(\<forall>q\<in>set (page # rest). \<not> pathCheckFails (path q)) \<and>
     (\<exists>ds es. length ds = Suc (length (page # rest)) \<and> length es = length (page # rest) \<and>
        length out = length (page # rest) \<and> ds ! 0 = d \<and> ds ! length (page # rest) = d' \<and>
        effs = concat es \<and>
        (\<forall>j<length (page # rest).
           processPage cfg api nav (i + j) ((page # rest) ! j) (ds ! j)
             = (es ! j, ds ! Suc j, Inr (out ! j))))"
    then obtain ds es where ok: "\<not> pathCheckFails (path page)"
      and rest: "\<forall>q\<in>set rest. \<not> pathCheckFails (path q)"
      and ch: "length ds = Suc (Suc (length rest))" "length es = Suc (length rest)"
        "length out = Suc (length rest)" "ds ! 0 = d" "ds ! Suc (length rest) = d'"
        "effs = concat es"
      and steps: "\<forall>j<Suc (length rest).
           processPage cfg api nav (i + j) ((page # rest) ! j) (ds ! j)
             = (es ! j, ds ! Suc j, Inr (out ! j))"
      by auto
    obtain d0 ds' where ds: "ds = d0 # ds'" using ch(1) by (cases ds) auto
    obtain e1 es' where es: "es = e1 # es'" using ch(2) by (cases es) auto
    obtain page' ps where out: "out = page' # ps" using ch(3) by (cases out) auto
    have d0: "d0 = d" using ch(4) ds by simp
    have p1: "processPage cfg api nav i page d = (e1, ds' ! 0, Inr page')"
      using steps[rule_format, of 0] ds es out d0 by simp
    have steps': "\<forall>j<length rest.
           processPage cfg api nav (i + 1 + j) (rest ! j) (ds' ! j)
             = (es' ! j, ds' ! Suc j, Inr (ps ! j))"
    proof (intro allI impI)
      fix j assume "j < length rest"
      then have "Suc j < Suc (length rest)" by simp
      from steps[rule_format, OF this]
      show "processPage cfg api nav (i + 1 + j) (rest ! j) (ds' ! j)
             = (es' ! j, ds' ! Suc j, Inr (ps ! j))"
        using ds es out by simp
    qed
    have "writePages cfg api nav (i + 1) rest (ds' ! 0) = (concat es', d', Inr ps)"
    proof -
      have "(\<forall>q\<in>set rest. \<not> pathCheckFails (path q)) \<and>
        (\<exists>ds es. length ds = Suc (length rest) \<and> length es = length rest \<and>
          length ps = length rest \<and> ds ! 0 = ds' ! 0 \<and> ds ! length rest = d' \<and>
          concat es' = concat es \<and>
          (\<forall>j<length rest.
             processPage cfg api nav (i + 1 + j) (rest ! j) (ds ! j)
               = (es ! j, ds ! Suc j, Inr (ps ! j))))"
      proof (intro conjI exI[of _ ds'] exI[of _ es'])
        show "\<forall>q\<in>set rest. \<not> pathCheckFails (path q)" by (rule rest)
        show "length ds' = Suc (length rest)" using ch(1) ds by simp
        show "length es' = length rest" using ch(2) es by simp
        show "length ps = length rest" using ch(3) out by simp
        show "ds' ! 0 = ds' ! 0" by simp
        show "ds' ! length rest = d'" using ch(5) ds by simp
        show "concat es' = concat es'" by simp
        show "\<forall>j<length rest.
             processPage cfg api nav (i + 1 + j) (rest ! j) (ds' ! j)
               = (es' ! j, ds' ! Suc j, Inr (ps ! j))" by (rule steps')
      qed
      then show ?thesis using Cons.IH[of "i + 1" "ds' ! 0" "concat es'" ps] by blast
    qed
    then show "writePages cfg api nav i (page # rest) d = (effs, d', Inr out)"
      using ok p1 ch(6) es out by simp
  qed
qed

lemma writePages_append:
  assumes "writePages cfg api nav i good d = (effs, d', Inr out)"
  shows "writePages cfg api nav i (good @ rest) d =
     (case writePages cfg api nav (i + length good) rest d' of
        (effs', d'', r) \<Rightarrow>
          (effs @ effs', d'', case r of Inl err \<Rightarrow> Inl err | Inr ps \<Rightarrow> Inr (out @ ps)))"
  using assms
proof (induction good arbitrary: i d d' effs out)
  case Nil
  then show ?case by (auto split: prod.splits sum.splits)
next
  case (Cons page good)
  have ok: "\<not> pathCheckFails (path page)"
    using Cons.prems by (auto split: if_splits)
  obtain e1 d1 r1 where p1: "processPage cfg api nav i page d = (e1, d1, r1)"
    by (cases "processPage cfg api nav i page d") auto
  obtain page' where r1: "r1 = Inr page'"
    using Cons.prems ok p1 by (cases r1) auto
  obtain e2 d2 r2 where w2: "writePages cfg api nav (i + 1) good d1 = (e2, d2, r2)"
    by (cases "writePages cfg api nav (i + 1) good d1") auto
  obtain ps where r2: "r2 = Inr ps"
    using Cons.prems ok p1 r1 w2 by (cases r2) auto
  have res: "effs = e1 @ e2" "d' = d2" "out = page' # ps"
    using Cons.prems ok p1 r1 w2 r2 by simp_all
  have "writePages cfg api nav (i + 1) (good @ rest) d1 =
     (case writePages cfg api nav (i + 1 + length good) rest d2 of
        (effs', d'', r) \<Rightarrow>
          (e2 @ effs', d'', case r of Inl err \<Rightarrow> Inl err | Inr qs \<Rightarrow> Inr (ps @ qs)))"
    using w2 r2 by (intro Cons.IH) simp
  then show ?case
    using ok p1 r1 res by (auto split: prod.splits sum.splits)
qed

text \<open>
  The loop ends with the validation error exactly at the first page whose path fails the
  check, when the loop over the pages before it completes.
\<close>

lemma writePages_Error:
  assumes "writePages cfg api nav i pages d = (effs, d', Inl (Error msg))"
  shows "\<exists>good p rest out. pages = good @ p # rest \<and>
           writePages cfg api nav i good d = (effs, d', Inr out) \<and>
           pathCheckFails (path p) \<and> msg = pathCheckMessage (path p)"
  using assms
proof (induction pages arbitrary: i d effs)
  case Nil
  then show ?case by simp
next
  case (Cons page rest)
  show ?case
  proof (cases "pathCheckFails (path page)")
    case True
    then have "effs = []" "d' = d" "msg = pathCheckMessage (path page)"
      using Cons.prems by simp_all
    then have "page # rest = [] @ page # rest \<and>
           writePages cfg api nav i [] d = (effs, d', Inr []) \<and>
           pathCheckFails (path page) \<and> msg = pathCheckMessage (path page)"
      using True by simp
    then show ?thesis by blast
  next
    case False
    obtain e1 d1 r1 where p1: "processPage cfg api nav i page d = (e1, d1, r1)"
      by (cases "processPage cfg api nav i page d") auto
    obtain page' where r1: "r1 = Inr page'"
    proof (cases r1)
      case (Inl err)
      then have "err = Error msg" using Cons.prems False p1 by simp
      then show ?thesis using processPage_error[of cfg api nav i page d e1 d1 err msg] p1 Inl by simp
    next
      case (Inr page')
      then show ?thesis using that by simp
    qed
    obtain e2 d2 r2 where w2: "writePages cfg api nav (i + 1) rest d1 = (e2, d2, r2)"
      by (cases "writePages cfg api nav (i + 1) rest d1") auto
    have r2: "r2 = Inl (Error msg)" and res: "effs = e1 @ e2" "d' = d2"
      using Cons.prems False p1 r1 w2 by (auto split: sum.splits)
    from Cons.IH[of "i + 1" d1 e2] w2 r2 res(2)
    obtain good p rest' out where g: "rest = good @ p # rest'"
      "writePages cfg api nav (i + 1) good d1 = (e2, d', Inr out)"
      "pathCheckFails (path p)" "msg = pathCheckMessage (path p)"
      by auto
    have "page # rest = (page # good) @ p # rest' \<and>
           writePages cfg api nav i (page # good) d = (effs, d', Inr (page' # out)) \<and>
           pathCheckFails (path p) \<and> msg = pathCheckMessage (path p)"
      using g False p1 r1 res by simp
    then show ?thesis by blast
  qed
qed


subsection \<open>The layout of a page\<close>

lemma dumpWhen_effects:
  "dumpWhen cond cfg c p ext d = (effs, d', failed) \<Longrightarrow>
   effs = (if cond then [DumpFile c p ext] else [])"
  by (auto simp: dumpWhen_def split: if_splits prod.splits)





text \<open>A step that completes has dumped a markup file, whatever \<open>json2mdc\<close> returned.\<close>

lemma processPage_always_writes:
  "processPage cfg api nav i page d = (effs, d', Inr page') \<Longrightarrow>
   \<exists>c p. DumpFile c p ''md'' \<in> set effs"
  unfolding processPage_def Let_def
  by (auto simp: getFrontMatter_def dest!: dumpWhen_effects
      split: sum.splits prod.splits option.splits if_splits)

text \<open>
  C2. The content of the page is not published and \<open>json2mdc\<close> returns nothing; the front
  matter followed by the text \<open>undefined\<close> is not empty, and the markup file is written.
\<close>

theorem C2_unpublished_written:
  "json2mdc pascalToKebab (Some \<lparr>state = ''draft'', blocks = [Block (Some ''Card'') None [] []]\<rparr>) None = None
   \<and> fst (buildPages config (example_api ''draft'') [navPage 1 ''/en/about'' ''/en/1.about'' ''always'']
           Map.empty empty_disk)
     = [Fetch ''/content/en/about'',
        DumpFile (''---'' @ [CHR 0x0A] @ ''access: all'' @ [CHR 0x0A] @ ''apiUrl: /content/en/about''
                  @ [CHR 0x0A] @ ''---'' @ [CHR 0x0A, CHR 0x0A] @ ''undefined'')
          ''/en/1.about'' ''md'']
   \<and> files (fst (snd (buildPages config (example_api ''draft'')
           [navPage 1 ''/en/about'' ''/en/1.about'' ''always''] Map.empty empty_disk)))
       [''content'', ''en'', ''1.about.md'']
     = Some (''---'' @ [CHR 0x0A] @ ''access: all'' @ [CHR 0x0A] @ ''apiUrl: /content/en/about''
                  @ [CHR 0x0A] @ ''---'' @ [CHR 0x0A, CHR 0x0A] @ ''undefined'')"
  by code_simp

text \<open>
  C4, as the code has it. \<open>buildPages\<close> throws its validation error exactly when the
  expansion of the dynamic pages completes, the path of an expanded page is empty or
  holds a character outside \<open>[a-z0-9/:_.-]\<close>, and the loop over the pages before the first
  such page completes: an exception of a fetch, of \<open>JSON.parse\<close> or of a write for one of
  them ends the run before the check of that path. The error is thrown at that page: the
  calls of the run and the disk are those of the pages before it, and the message holds
  the path and the pattern. The loop over a list of pages completes exactly when every
  path is valid and the step of every page completes, each from the disk that the step
  before it left.
\<close>

theorem C4_path_validation:
  "((\<exists>msg. snd (snd (buildPages cfg api nav res d)) = Inl (Error msg)) \<longleftrightarrow>
      (\<exists>good p rest effs d' out.
         expandPages res nav = Inr (good @ p # rest) \<and>
         writePages cfg api nav 0 good d = (effs, d', Inr out) \<and>
         (path p = [] \<or> (\<exists>c\<in>set (path p). c \<notin> set ''/:.abcdefghijklmnopqrstuvwxyz0123456789-_''))))
   \<and> (\<forall>good p rest effs d' out.
         expandPages res nav = Inr (good @ p # rest) \<and>
         writePages cfg api nav 0 good d = (effs, d', Inr out) \<and>
         (path p = [] \<or> (\<exists>c\<in>set (path p). c \<notin> set ''/:.abcdefghijklmnopqrstuvwxyz0123456789-_''))
         \<longrightarrow> buildPages cfg api nav res d =
               (effs, d',
                Inl (Error (''Page path '' @ path p
                   @ '' contains invalid character(s) => path check pattern: /[/:.a-z0-9-_]+/gm''))))
   \<and> (\<forall>good effs d' out.
         writePages cfg api nav 0 good d = (effs, d', Inr out) \<longleftrightarrow>
           (\<forall>q\<in>set good. path q \<noteq> [] \<and>
              (\<forall>c\<in>set (path q). c \<in> set ''/:.abcdefghijklmnopqrstuvwxyz0123456789-_'')) \<and>
           (\<exists>ds es. length ds = Suc (length good) \<and> length es = length good \<and>
              length out = length good \<and> ds ! 0 = d \<and> ds ! length good = d' \<and> effs = concat es \<and>
              (\<forall>j<length good.
                 processPage cfg api nav j (good ! j) (ds ! j) = (es ! j, ds ! Suc j, Inr (out ! j)))))"
proof (intro conjI allI impI)
  show "(\<exists>msg. snd (snd (buildPages cfg api nav res d)) = Inl (Error msg)) \<longleftrightarrow>
      (\<exists>good p rest effs d' out.
         expandPages res nav = Inr (good @ p # rest) \<and>
         writePages cfg api nav 0 good d = (effs, d', Inr out) \<and>
         (path p = [] \<or> (\<exists>c\<in>set (path p). c \<notin> set ''/:.abcdefghijklmnopqrstuvwxyz0123456789-_'')))"
  proof
    assume "\<exists>msg. snd (snd (buildPages cfg api nav res d)) = Inl (Error msg)"
    then obtain msg where err: "snd (snd (buildPages cfg api nav res d)) = Inl (Error msg)" ..
    show "\<exists>good p rest effs d' out.
         expandPages res nav = Inr (good @ p # rest) \<and>
         writePages cfg api nav 0 good d = (effs, d', Inr out) \<and>
         (path p = [] \<or> (\<exists>c\<in>set (path p). c \<notin> set ''/:.abcdefghijklmnopqrstuvwxyz0123456789-_''))"
    proof (cases "expandPages res nav")
      case (Inl e)
      have "e = TypeError" using Inl by (rule expandPages_error)
      then show ?thesis using Inl err by (simp add: buildPages_def)
    next
      case (Inr pages)
      obtain effs d' where "writePages cfg api nav 0 pages d = (effs, d', Inl (Error msg))"
        using err Inr by (cases "writePages cfg api nav 0 pages d") (auto simp: buildPages_def)
      from writePages_Error[OF this]
      obtain good p rest out where "pages = good @ p # rest"
        "writePages cfg api nav 0 good d = (effs, d', Inr out)" "pathCheckFails (path p)"
        by blast
      then show ?thesis
        using Inr unfolding pathCheckFails_iff isPathChar_def by blast
    qed
  next
    assume "\<exists>good p rest effs d' out.
         expandPages res nav = Inr (good @ p # rest) \<and>
         writePages cfg api nav 0 good d = (effs, d', Inr out) \<and>
         (path p = [] \<or> (\<exists>c\<in>set (path p). c \<notin> set ''/:.abcdefghijklmnopqrstuvwxyz0123456789-_''))"
    then obtain good p rest effs d' out where e: "expandPages res nav = Inr (good @ p # rest)"
      and w: "writePages cfg api nav 0 good d = (effs, d', Inr out)"
      and b: "path p = [] \<or> (\<exists>c\<in>set (path p). c \<notin> set ''/:.abcdefghijklmnopqrstuvwxyz0123456789-_'')"
      by blast
    have bad: "pathCheckFails (path p)"
      using b unfolding pathCheckFails_iff isPathChar_def by blast
    have "writePages cfg api nav 0 (good @ p # rest) d
        = (effs, d', Inl (Error (pathCheckMessage (path p))))"
      using writePages_append[OF w, of "p # rest"] bad by simp
    then show "\<exists>msg. snd (snd (buildPages cfg api nav res d)) = Inl (Error msg)"
      using e by (simp add: buildPages_def)
  qed
next
  fix good p rest effs d' out
  assume a: "expandPages res nav = Inr (good @ p # rest) \<and>
         writePages cfg api nav 0 good d = (effs, d', Inr out) \<and>
         (path p = [] \<or> (\<exists>c\<in>set (path p). c \<notin> set ''/:.abcdefghijklmnopqrstuvwxyz0123456789-_''))"
  then have w: "writePages cfg api nav 0 good d = (effs, d', Inr out)" by simp
  have bad: "pathCheckFails (path p)"
    using a unfolding pathCheckFails_iff isPathChar_def by blast
  have "writePages cfg api nav 0 (good @ p # rest) d
      = (effs, d', Inl (Error (pathCheckMessage (path p))))"
    using writePages_append[OF w, of "p # rest"] bad by simp
  then show "buildPages cfg api nav res d =
               (effs, d',
                Inl (Error (''Page path '' @ path p
                   @ '' contains invalid character(s) => path check pattern: /[/:.a-z0-9-_]+/gm'')))"
    using a by (simp add: buildPages_def pathCheckMessage_def)
next
  fix good effs d' out
  show "writePages cfg api nav 0 good d = (effs, d', Inr out) \<longleftrightarrow>
           (\<forall>q\<in>set good. path q \<noteq> [] \<and>
              (\<forall>c\<in>set (path q). c \<in> set ''/:.abcdefghijklmnopqrstuvwxyz0123456789-_'')) \<and>
           (\<exists>ds es. length ds = Suc (length good) \<and> length es = length good \<and>
              length out = length good \<and> ds ! 0 = d \<and> ds ! length good = d' \<and> effs = concat es \<and>
              (\<forall>j<length good.
                 processPage cfg api nav j (good ! j) (ds ! j) = (es ! j, ds ! Suc j, Inr (out ! j))))"
    using writePages_Inr_iff[of cfg api nav 0 good d effs d' out]
    unfolding pathCheckFails_iff isPathChar_def by simp
qed

text \<open>
  The page \<open>/en/about\<close> is processed and written, and the page after it, whose path holds
  the letters \<open>P\<close> and \<open>a\<close> with an acute accent, ends the run; the third page is not
  reached.
\<close>

theorem C4_path_validation_witness:
  "fst (buildPages config (example_api ''published'') pagina_navigation Map.empty empty_disk) =
     [Fetch ''/content/en/about'',
      DumpFile (''---'' @ [CHR 0x0A] @ ''access: all'' @ [CHR 0x0A] @ ''apiUrl: /content/en/about''
                 @ [CHR 0x0A] @ ''---'' @ [CHR 0x0A, CHR 0x0A] @ '':card'') ''/en/1.about'' ''md'']
   \<and> snd (snd (buildPages config (example_api ''published'') pagina_navigation Map.empty empty_disk)) =
      Inl (Error (''Page path /en/P'' @ [CHR 0xE1]
            @ ''gina contains invalid character(s) => path check pattern: /[/:.a-z0-9-_]+/gm''))"
proof -
  let ?api = "example_api ''published''"
  let ?a = "(navPage 1 ''/en/about'' ''/en/1.about'' ''always'')\<lparr>hasDynamicContent := Some False\<rparr>"
  let ?b = "(navPage 2 (''/en/P'' @ [CHR 0xE1] @ ''gina'') ''/en/2.pagina'' ''always'')\<lparr>hasDynamicContent := Some False\<rparr>"
  let ?c = "(navPage 3 ''/en/contact'' ''/en/3.contact'' ''always'')\<lparr>hasDynamicContent := Some False\<rparr>"
  let ?w = "writePages config ?api pagina_navigation 0 [?a] empty_disk"
  have e: "expandPages Map.empty pagina_navigation = Inr ([?a] @ ?b # [?c])"
    by code_simp
  have "\<not> isl (snd (snd ?w))" by code_simp
  then have w: "?w = (fst ?w, fst (snd ?w), Inr (projr (snd (snd ?w))))"
    by (simp add: prod_eq_iff)
  have b: "path ?b = [] \<or> (\<exists>c\<in>set (path ?b). c \<notin> set ''/:.abcdefghijklmnopqrstuvwxyz0123456789-_'')"
    by code_simp
  have "buildPages config ?api pagina_navigation Map.empty empty_disk =
      (fst ?w, fst (snd ?w),
       Inl (Error (''Page path '' @ path ?b
          @ '' contains invalid character(s) => path check pattern: /[/:.a-z0-9-_]+/gm'')))"
    using C4_path_validation[of config ?api pagina_navigation Map.empty empty_disk] e w b
    by blast
  moreover have "fst ?w
      = [Fetch ''/content/en/about'',
       DumpFile (''---'' @ [CHR 0x0A] @ ''access: all'' @ [CHR 0x0A] @ ''apiUrl: /content/en/about''
                  @ [CHR 0x0A] @ ''---'' @ [CHR 0x0A, CHR 0x0A] @ '':card'') ''/en/1.about'' ''md'']"
    by code_simp
  moreover have "path ?b = ''/en/P'' @ [CHR 0xE1] @ ''gina''"
    by (simp add: navPage_def)
  ultimately show ?thesis by simp
qed

text \<open>
  C4 as the specification states it: the empty path holds no character outside the set,
  and \<open>buildPages\<close> throws on it (\<open>match\<close> returns \<open>null\<close>).
\<close>

theorem C4_counterexample:
  "fst (buildPages config (example_api ''published'') [navPage 1 [] ''/en/1.a'' ''always''] Map.empty
         empty_disk) = []
   \<and> snd (snd (buildPages config (example_api ''published'') [navPage 1 [] ''/en/1.a'' ''always'']
         Map.empty empty_disk))
     = Inl (Error ''Page path  contains invalid character(s) => path check pattern: /[/:.a-z0-9-_]+/gm'')
   \<and> list_all (\<lambda>c. c \<in> set ''/:.abcdefghijklmnopqrstuvwxyz0123456789-_'') (path (navPage 1 [] ''/en/1.a'' ''always''))"
  by code_simp

text \<open>
  The other exceptions of \<open>buildPages\<close>. The entity of a dynamic page is named as a
  property that every object inherits, and no resolver is registered under that name:
  the call of \<open>resolve\<close> throws.
\<close>

lemma inherited_resolver_name:
  "fst (buildPages config (example_api ''published'')
     [navPage 1 ''/en/:constructor.slug'' ''/en/1.:constructor.slug'' ''always''] Map.empty empty_disk) = []
   \<and> snd (snd (buildPages config (example_api ''published'')
     [navPage 1 ''/en/:constructor.slug'' ''/en/1.:constructor.slug'' ''always''] Map.empty empty_disk))
     = Inl TypeError"
  by code_simp

text \<open>
  A folder of the sorted path that ends like a markup file is left out of the directory
  that \<open>dumpFile\<close> makes: for \<open>/en/1.x.md/2.y\<close> it makes \<open>content/en\<close> and writes
  \<open>content/en/1.x.md/2.y.md\<close>, which throws. The run ends there, and the path of the next
  page, which holds a capital letter, is not checked.
\<close>

lemma write_below_missing_folder:
  "fst (buildPages config (example_api ''published'')
     [navPage 1 ''/en/x.md/y'' ''/en/1.x.md/2.y'' ''always'', navPage 2 ''/en/Bad'' ''/en/2.bad'' ''always'']
     Map.empty empty_disk)
   = [Fetch ''/content/en/x.md/y'',
      DumpFile (''---'' @ [CHR 0x0A] @ ''access: all'' @ [CHR 0x0A] @ ''apiUrl: /content/en/x.md/y''
                 @ [CHR 0x0A] @ ''---'' @ [CHR 0x0A, CHR 0x0A] @ '':card'') ''/en/1.x.md/2.y'' ''md'']
   \<and> snd (snd (buildPages config (example_api ''published'')
     [navPage 1 ''/en/x.md/y'' ''/en/1.x.md/2.y'' ''always'', navPage 2 ''/en/Bad'' ''/en/2.bad'' ''always'']
     Map.empty empty_disk))
   = Inl (SystemError ''ENOENT'')
   \<and> dumpFolder config ''/en/1.x.md/2.y'' ''md'' = [''content'', ''en'']
   \<and> dumpTarget config ''/en/1.x.md/2.y'' ''md'' = [''content'', ''en'', ''1.x.md'', ''2.y.md'']"
  by code_simp

text \<open>
  The content of a page with an entity is parsed back from a text in which the
  placeholders were replaced; when that text is no JSON text, \<open>JSON.parse\<close> throws and the
  run ends at the first page of the entity.
\<close>

lemma content_text_not_parsed:
  "fst (buildPages config ((example_api ''published'')\<lparr>parseContent := (\<lambda>t. Inl ''SyntaxError'')\<rparr>)
     city_navigation city_resolvers empty_disk) = [Fetch ''/content/en/paris'']
   \<and> snd (snd (buildPages config ((example_api ''published'')\<lparr>parseContent := (\<lambda>t. Inl ''SyntaxError'')\<rparr>)
     city_navigation city_resolvers empty_disk)) = Inl (Thrown ''SyntaxError'')"
  by code_simp

section \<open>Properties of the run\<close>

subsection \<open>The files that a run writes\<close>

lemma writesOnlyDumps_return: "writesOnlyDumps cfg d ([], d, r)"
  by (simp add: writesOnlyDumps_def)

lemma writesOnlyDumps_same_disk: "writesOnlyDumps cfg d (effs, d, r)"
  by (simp add: writesOnlyDumps_def)

lemma andThen_Inr:
  "andThen (effs, d, Inr x) second =
     (case second x d of (effs', d', r) \<Rightarrow> (effs @ effs', d', r))"
  by (simp add: andThen_def)

lemma writesOnlyDumps_trans:
  assumes "writesOnlyDumps cfg d (e1, d1, r1)" and "writesOnlyDumps cfg d1 (e2, d2, r2)"
  shows "writesOnlyDumps cfg d (e1 @ e2, d2, r)"
  using assms unfolding writesOnlyDumps_def by (simp, blast)

lemma writesOnlyDumps_result:
  "writesOnlyDumps cfg d (effs, d', r) \<Longrightarrow> writesOnlyDumps cfg d (effs, d', r')"
  by (simp add: writesOnlyDumps_def)

lemma files_mkdirRecursive: "mkdirRecursive p d = Inr d' \<Longrightarrow> files d' = files d"
  by (auto simp: mkdirRecursive_def split: if_splits)

lemma files_writeFile: "writeFile p c d = Inr d' \<Longrightarrow> files d' = (files d)(p \<mapsto> c)"
  by (auto simp: writeFile_def split: if_splits)

lemma files_dumpFile:
  assumes "dumpFile cfg c p ext d = (d', failed)"
  shows "files d' = files d \<or> files d' = (files d)(dumpTarget cfg p ext \<mapsto> c)"
proof (cases "mkdirRecursive (dumpFolder cfg p ext) d")
  case (Inl err)
  then show ?thesis using assms by (simp add: dumpFile_def)
next
  case (Inr d1)
  then have f1: "files d1 = files d" by (rule files_mkdirRecursive)
  show ?thesis
  proof (cases "writeFile (dumpTarget cfg p ext) c d1")
    case (Inl err)
    then show ?thesis using assms Inr f1 by (simp add: dumpFile_def)
  next
    case w: (Inr d2)
    then have "files d2 = (files d1)(dumpTarget cfg p ext \<mapsto> c)" by (rule files_writeFile)
    then show ?thesis using assms Inr w f1 by (simp add: dumpFile_def)
  qed
qed

lemma writesOnlyDumps_dumpWhen: "writesOnlyDumps cfg d (dumpWhen cond cfg c p ext d)"
proof (cases cond)
  case False
  then show ?thesis by (simp add: dumpWhen_def writesOnlyDumps_def)
next
  case True
  obtain d' failed where df: "dumpFile cfg c p ext d = (d', failed)"
    by (cases "dumpFile cfg c p ext d") auto
  have "files d' = files d \<or> files d' = (files d)(dumpTarget cfg p ext \<mapsto> c)"
    using df by (rule files_dumpFile)
  then show ?thesis
    using True df by (auto simp: dumpWhen_def writesOnlyDumps_def split: if_splits)
qed

lemma writesOnlyDumps_dumpStep:
  "writesOnlyDumps cfg d dumped \<Longrightarrow> writesOnlyDumps cfg d (dumpStep dumped)"
  by (cases dumped) (simp add: dumpStep_def writesOnlyDumps_def)

lemma writesOnlyDumps_dumpJson: "writesOnlyDumps cfg d (dumpJson cfg json p d)"
  by (simp add: dumpJson_def writesOnlyDumps_dumpWhen)

lemma writesOnlyDumps_fetchStep: "writesOnlyDumps cfg d (fetchStep url fetcher d)"
  by (simp add: fetchStep_def writesOnlyDumps_def)

lemma writesOnlyDumps_mkdirStep: "writesOnlyDumps cfg d (mkdirStep segments d)"
  by (auto simp: mkdirStep_def writesOnlyDumps_def dest: files_mkdirRecursive split: sum.splits)

lemma writesOnlyDumps_andThen:
  assumes "writesOnlyDumps cfg d first"
    and "\<And>x. writesOnlyDumps cfg (fst (snd first)) (second x (fst (snd first)))"
  shows "writesOnlyDumps cfg d (andThen first second)"
proof -
  obtain e1 d1 r1 where f: "first = (e1, d1, r1)" by (cases first) auto
  show ?thesis
  proof (cases r1)
    case (Inl err)
    have "writesOnlyDumps cfg d (e1, d1, Inl err :: js_error + 'b)"
      using assms(1) f by (simp add: writesOnlyDumps_def)
    then show ?thesis using f Inl by (simp add: andThen_def)
  next
    case (Inr x)
    obtain e2 d2 r2 where s: "second x d1 = (e2, d2, r2)" by (cases "second x d1") auto
    have w1: "writesOnlyDumps cfg d (e1, d1, r1)" using assms(1) f by simp
    have w2: "writesOnlyDumps cfg d1 (e2, d2, r2)" using assms(2)[of x] f s by simp
    have "writesOnlyDumps cfg d (e1 @ e2, d2, r2)"
      using w1 w2 by (rule writesOnlyDumps_trans)
    then show ?thesis using f Inr s by (simp add: andThen_def)
  qed
qed

lemma writesOnlyDumps_processPage: "writesOnlyDumps cfg d (processPage cfg api nav i page d)"
proof -
  let ?lsp = "localSorted (sortedPath page)"
  let ?page1 = "page\<lparr>localSortedPath := Some ?lsp\<rparr>"
  let ?url = "apiBaseUrl cfg @ contentDetailPath api ?page1"
  show ?thesis
  proof (cases "fetchContent api ?url")
    case (Inl what)
    have "writesOnlyDumps cfg d ([Fetch ?url], d, Inl (Thrown what) :: js_error + ImportingPage)"
      by (rule writesOnlyDumps_same_disk)
    then show ?thesis
      by (simp only: processPage_def Let_def Inl sum.case)
  next
    case fetched: (Inr fetched)
    show ?thesis
    proof (cases "pageContent api ?page1 fetched")
      case (Inl err)
      have "writesOnlyDumps cfg d ([Fetch ?url], d, Inl err :: js_error + ImportingPage)"
        by (rule writesOnlyDumps_same_disk)
      then show ?thesis
        by (simp only: processPage_def Let_def fetched Inl sum.case)
    next
      case content: (Inr content)
      let ?dir = "createDir nav i ?page1"
      obtain marker d1 failed1 where m:
        "dumpWhen (page_show page = ''never'' \<and> ?dir) cfg ''navigation: false'' (?lsp @ ''/_dir'') ''yml'' d
           = (marker, d1, failed1)"
        using prod_cases3 by blast
      have w1: "writesOnlyDumps cfg d (marker, d1, failed1)"
        using writesOnlyDumps_dumpWhen[of cfg d "page_show page = ''never'' \<and> ?dir"
            "''navigation: false''" "?lsp @ ''/_dir''" "''yml''"]
        by (simp only: m)
      have w0: "writesOnlyDumps cfg d ([Fetch ?url], d, ())"
        by (rule writesOnlyDumps_same_disk)
      show ?thesis
      proof (cases failed1)
        case (Some err)
        have "writesOnlyDumps cfg d ([Fetch ?url] @ marker, d1, Inl err :: js_error + ImportingPage)"
          using w0 w1 by (rule writesOnlyDumps_trans)
        then have "writesOnlyDumps cfg d (Fetch ?url # marker, d1, Inl err :: js_error + ImportingPage)"
          by (simp only: append_Cons append_Nil)
        then show ?thesis
          by (simp only: processPage_def Let_def fetched content m Some sum.case prod.case option.case)
      next
        case None
        let ?lp = "if ?dir then ?lsp @ ''/0.index'' else ?lsp"
        let ?page2 = "?page1\<lparr>localSortedPath := Some ?lp, localPath := Some ?lp\<rparr>"
        let ?md = "getFrontMatter ?page2 ?url
                                 @ (case json2mdc (kebabHelper api) content
                                           (if hasDynamicContent ?page2 = Some True
                                            then Some (getEntityDefFromPath (path ?page2)) else None) of
                                      None \<Rightarrow> ''undefined'' | Some md \<Rightarrow> md)"
        obtain markup d2 failed2 where k:
          "dumpWhen (?md \<noteq> []) cfg ?md ?lp ''md'' d1 = (markup, d2, failed2)"
          using prod_cases3 by blast
        have w2: "writesOnlyDumps cfg d1 (markup, d2, failed2)"
          using writesOnlyDumps_dumpWhen[of cfg d1 "?md \<noteq> []" ?md ?lp "''md''"]
          by (simp only: k)
        have w12: "writesOnlyDumps cfg d (marker @ markup, d2, ())"
          by (rule writesOnlyDumps_trans[OF w1 w2])
        have "writesOnlyDumps cfg d ([Fetch ?url] @ marker @ markup, d2, r)" for r :: "js_error + ImportingPage"
          using w0 w12 by (rule writesOnlyDumps_trans)
        then have "writesOnlyDumps cfg d (Fetch ?url # marker @ markup, d2, r)" for r :: "js_error + ImportingPage"
          by (simp only: append_Cons append_Nil)
        then show ?thesis
          by (simp only: processPage_def Let_def fetched content m None k sum.case prod.case option.case)
      qed
    qed
  qed
qed

lemma writesOnlyDumps_writePages: "writesOnlyDumps cfg d (writePages cfg api nav i pages d)"
proof (induction pages arbitrary: i d)
  case Nil
  then show ?case by (simp add: writesOnlyDumps_def)
next
  case (Cons page rest)
  show ?case
  proof (cases "pathCheckFails (path page)")
    case True
    then show ?thesis by (simp add: writesOnlyDumps_def)
  next
    case False
    obtain e1 d1 r1 where p1: "processPage cfg api nav i page d = (e1, d1, r1)"
      using prod_cases3 by blast
    have w1: "writesOnlyDumps cfg d (e1, d1, r1)"
      using writesOnlyDumps_processPage[of cfg d api nav i page] p1 by simp
    show ?thesis
    proof (cases r1)
      case (Inl err)
      have "writesOnlyDumps cfg d (e1, d1, Inl err :: js_error + ImportingPage list)"
        using w1 by (simp add: writesOnlyDumps_def)
      then show ?thesis using False p1 Inl by simp
    next
      case (Inr page')
      obtain e2 d2 r2 where w: "writePages cfg api nav (i + 1) rest d1 = (e2, d2, r2)"
        using prod_cases3 by blast
      have w2: "writesOnlyDumps cfg d1 (e2, d2, r2)"
        using Cons.IH[of d1 "i + 1"] w by simp
      have "writesOnlyDumps cfg d (e1 @ e2, d2, r)" for r :: "js_error + ImportingPage list"
        using w1 w2 by (rule writesOnlyDumps_trans)
      then show ?thesis using False p1 Inr w by simp
    qed
  qed
qed

lemma writesOnlyDumps_buildPages: "writesOnlyDumps cfg d (buildPages cfg api nav res d)"
  by (cases "expandPages res nav")
    (simp_all add: buildPages_def writesOnlyDumps_writePages writesOnlyDumps_return)

lemma writesOnlyDumps_langStep: "writesOnlyDumps cfg d (langStep cfg api ends excl lang d)"
  unfolding langStep_def
  by (intro writesOnlyDumps_andThen writesOnlyDumps_mkdirStep writesOnlyDumps_fetchStep
      writesOnlyDumps_dumpStep writesOnlyDumps_dumpJson writesOnlyDumps_buildPages
      writesOnlyDumps_return)

lemma writesOnlyDumps_langLoop:
  "writesOnlyDumps cfg d (langLoop cfg api ends excl langs pageLinks d)"
proof (induction langs arbitrary: pageLinks d)
  case Nil
  then show ?case by (simp add: writesOnlyDumps_return)
next
  case (Cons lang rest)
  show ?case
    unfolding langLoop.simps
    by (intro writesOnlyDumps_andThen writesOnlyDumps_langStep Cons.IH)
qed

lemma generateContent_config:
  "fst (generateContent api ends cfg0 baseUrl root excl d0) =
     cfg0\<lparr>apiBaseUrl := baseUrl,
          contentBasePath := (case root of None \<Rightarrow> contentBasePath cfg0
             | Some folder \<Rightarrow> if folder \<noteq> [] then [folder] else contentBasePath cfg0)\<rparr>"
  by (simp add: generateContent_def Let_def split: option.splits)

text \<open>
  The run after its first call: what \<open>generateContent\<close> does from the disk that \<open>rm\<close> left.
\<close>

lemma generateContent_starts:
  assumes "generateContent api ends cfg0 baseUrl root excl d0 = (cfg, effs, d', r)"
  shows "\<exists>rest. effs = Rm (contentBasePath cfg) # rest \<and>
           writesOnlyDumps cfg (rmRecursive (joinPath (contentBasePath cfg)) d0) (rest, d', r)"
proof -
  let ?excl = "''hc_'' # (case excl of None \<Rightarrow> [] | Some ps \<Rightarrow> ps)"
  let ?d1 = "rmRecursive (joinPath (contentBasePath cfg)) d0"
  let ?after = "andThen (fetchStep (apiBaseUrl cfg @ langListPath ends) (fetchLangs ends) ?d1) (\<lambda>langs d.
          andThen (dumpStep (dumpJson cfg (stringifyLangs ends langs)
                     (joinText (apiBasePath cfg @ [''langs''])) d)) (\<lambda>_ d.
          andThen (langLoop cfg api ends ?excl langs [] d) (\<lambda>pageLinks d.
            dumpStep (dumpWhen True cfg (js_join [CHR 0x0A] pageLinks) ''index'' ''md'' d))))"
  have cfg: "cfg = fst (generateContent api ends cfg0 baseUrl root excl d0)"
    using assms by simp
  have run: "(effs, d', r) = andThen ([Rm (contentBasePath cfg)], ?d1, Inr ()) (\<lambda>_ d.
          andThen (fetchStep (apiBaseUrl cfg @ langListPath ends) (fetchLangs ends) d) (\<lambda>langs d.
          andThen (dumpStep (dumpJson cfg (stringifyLangs ends langs)
                     (joinText (apiBasePath cfg @ [''langs''])) d)) (\<lambda>_ d.
          andThen (langLoop cfg api ends ?excl langs [] d) (\<lambda>pageLinks d.
            dumpStep (dumpWhen True cfg (js_join [CHR 0x0A] pageLinks) ''index'' ''md'' d)))))"
    using assms unfolding cfg by (simp add: generateContent_def Let_def)
  obtain rest d2 r2 where a: "?after = (rest, d2, r2)"
    using prod_cases3 by blast
  have "writesOnlyDumps cfg ?d1 ?after"
    by (intro writesOnlyDumps_andThen writesOnlyDumps_fetchStep writesOnlyDumps_dumpStep
        writesOnlyDumps_dumpJson writesOnlyDumps_langLoop writesOnlyDumps_dumpWhen)
  then have "writesOnlyDumps cfg ?d1 (rest, d2, r2)" using a by simp
  moreover have "effs = Rm (contentBasePath cfg) # rest \<and> d' = d2 \<and> r = r2"
    using run a by (simp add: andThen_Inr)
  ultimately show ?thesis by auto
qed

lemma dump_targets_list_all:
  "list_all (\<lambda>e. case e of DumpFile c pa ext \<Rightarrow> dumpTarget cfg pa ext \<noteq> p | _ \<Rightarrow> True) effs \<Longrightarrow>
   \<forall>c pa ext. DumpFile c pa ext \<in> set effs \<longrightarrow> dumpTarget cfg pa ext \<noteq> p"
  by (induction effs) (auto split: effect.splits)

text \<open>
  C10. The content root of a run is the folder \<open>contentRootFolder\<close> when it is given and
  not empty, and otherwise the one the module variable holds (\<open>content\<close> as the module is
  loaded). The first call of the run removes it recursively, before any fetch and any
  write, also when the run ends with an exception; so on the disk that the run leaves, no
  file at or below the content root is left unless a later call of this run dumped it.
\<close>

theorem C10_cleanup_first:
  assumes "generateContent api ends cfg0 baseUrl root excl d0 = (cfg, effs, d', r)"
  shows "contentBasePath cfg =
           (case root of None \<Rightarrow> contentBasePath cfg0
            | Some folder \<Rightarrow> if folder \<noteq> [] then [folder] else contentBasePath cfg0)
       \<and> (\<exists>rest. effs = Rm (contentBasePath cfg) # rest
            \<and> (\<forall>p. prefix (joinPath (contentBasePath cfg)) p \<longrightarrow>
                  (\<forall>c pa ext. DumpFile c pa ext \<in> set rest \<longrightarrow> dumpTarget cfg pa ext \<noteq> p) \<longrightarrow>
                  files d' p = None))"
proof -
  have cfg: "cfg = cfg0\<lparr>apiBaseUrl := baseUrl,
          contentBasePath := (case root of None \<Rightarrow> contentBasePath cfg0
             | Some folder \<Rightarrow> if folder \<noteq> [] then [folder] else contentBasePath cfg0)\<rparr>"
    using generateContent_config[of api ends cfg0 baseUrl root excl d0] assms by simp
  obtain rest where rest: "effs = Rm (contentBasePath cfg) # rest"
    and w: "writesOnlyDumps cfg (rmRecursive (joinPath (contentBasePath cfg)) d0) (rest, d', r)"
    using generateContent_starts[OF assms] by blast
  have "files d' p = None"
    if p: "prefix (joinPath (contentBasePath cfg)) p"
      and n: "\<forall>c pa ext. DumpFile c pa ext \<in> set rest \<longrightarrow> dumpTarget cfg pa ext \<noteq> p" for p
  proof (rule ccontr)
    assume "files d' p \<noteq> None"
    then have "files (rmRecursive (joinPath (contentBasePath cfg)) d0) p \<noteq> None \<or>
        (\<exists>c pa ext. DumpFile c pa ext \<in> set rest \<and> dumpTarget cfg pa ext = p)"
      using w unfolding writesOnlyDumps_def by simp
    moreover have "files (rmRecursive (joinPath (contentBasePath cfg)) d0) p = None"
      using p by (simp add: rmRecursive_def)
    ultimately show False using n by blast
  qed
  then show ?thesis using rest cfg by auto
qed

text \<open>
  A run on a disk that holds the file \<open>content/en/old.md\<close> of an earlier run: the first
  call removes the content root, no call of the run dumps that file, and the disk that
  the run leaves does not hold it.
\<close>

theorem C10_cleanup_first_witness:
  "contentBasePath (fst (generateContent (example_api ''published'') example_endpoints config
       ''http://api'' None None stale_disk)) = [''content'']
   \<and> hd (fst (snd (generateContent (example_api ''published'') example_endpoints config
       ''http://api'' None None stale_disk))) = Rm [''content'']
   \<and> files stale_disk [''content'', ''en'', ''old.md''] = Some ''stale''
   \<and> files (fst (snd (snd (generateContent (example_api ''published'') example_endpoints config
           ''http://api'' None None stale_disk))))
         [''content'', ''en'', ''old.md''] = None"
proof -
  let ?G = "generateContent (example_api ''published'') example_endpoints config
       ''http://api'' None None stale_disk"
  let ?cfg = "\<lparr>apiBasePath = [''_hc'', ''api''], apiBaseUrl = ''http://api'',
     contentBasePath = [''content'']\<rparr>"
  let ?rest = "[Fetch ''http://api/langs'',
     DumpFile ''[langs]'' ''_hc/api/langs'' ''json'',
     Mkdir [''content'', ''en''], Fetch ''http://api/labels/en'',
     DumpFile ''title'' ''_hc/api/en/labels'' ''json'',
     Fetch ''http://api/navigation/en'',
     DumpFile ''[navigation]'' ''_hc/api/en/navigation'' ''json'',
     Fetch ''http://api/content/en/news'',
     DumpFile ''navigation: false'' ''/en/1.news/_dir'' ''yml'',
     DumpFile (''---'' @ [CHR 0x0A] @ ''navigation: false'' @ [CHR 0x0A] @ ''access: all'' @ [CHR 0x0A]
        @ ''apiUrl: http://api/content/en/news'' @ [CHR 0x0A] @ ''---'' @ [CHR 0x0A, CHR 0x0A] @ '':card'')
       ''/en/1.news/0.index'' ''md'',
     Fetch ''http://api/content/en/news/post'',
     DumpFile (''---'' @ [CHR 0x0A] @ ''access: all'' @ [CHR 0x0A]
        @ ''apiUrl: http://api/content/en/news/post'' @ [CHR 0x0A] @ ''---'' @ [CHR 0x0A, CHR 0x0A] @ '':card'')
       ''/en/1.news/1.post'' ''md'',
     DumpFile (''- [/en/news](/en/news)'' @ [CHR 0x0A] @ ''- [/en/news/post](/en/news/1.post)'')
       ''index'' ''md'']"
  have run: "?G = (fst ?G, fst (snd ?G), fst (snd (snd ?G)), snd (snd (snd ?G)))"
    by (simp add: prod_eq_iff)
  have cfg: "fst ?G = ?cfg" by code_simp
  have effs: "fst (snd ?G) = Rm [''content''] # ?rest" by code_simp
  have stale: "files stale_disk [''content'', ''en'', ''old.md''] = Some ''stale''"
    by (simp add: stale_disk_def)
  have "list_all (\<lambda>e. case e of DumpFile c pa ext \<Rightarrow>
        dumpTarget ?cfg pa ext \<noteq> [''content'', ''en'', ''old.md''] | _ \<Rightarrow> True) ?rest"
    by code_simp
  then have targets: "\<forall>c pa ext. DumpFile c pa ext \<in> set ?rest \<longrightarrow>
      dumpTarget ?cfg pa ext \<noteq> [''content'', ''en'', ''old.md'']"
    by (rule dump_targets_list_all)
  have under: "prefix (joinPath (contentBasePath ?cfg)) [''content'', ''en'', ''old.md'']"
    by code_simp
  from C10_cleanup_first[OF run] obtain rest where
    r: "fst (snd ?G) = Rm (contentBasePath (fst ?G)) # rest" and
    imp: "\<forall>p. prefix (joinPath (contentBasePath (fst ?G))) p \<longrightarrow>
            (\<forall>c pa ext. DumpFile c pa ext \<in> set rest \<longrightarrow> dumpTarget (fst ?G) pa ext \<noteq> p) \<longrightarrow>
            files (fst (snd (snd ?G))) p = None"
    by blast
  have "rest = ?rest" using r unfolding effs by (simp only: list.inject)
  then have gone: "files (fst (snd (snd ?G))) [''content'', ''en'', ''old.md''] = None"
    using imp under targets unfolding cfg by blast
  have c1: "contentBasePath (fst ?G) = [''content'']" unfolding cfg by simp
  have c2: "hd (fst (snd ?G)) = Rm [''content'']" unfolding effs by (simp only: list.sel)
  show ?thesis using c1 c2 stale gone by (intro conjI)
qed

text \<open>The files of that run, on the disk that it leaves.\<close>

lemma example_run_files:
  "snd (snd (snd (generateContent (example_api ''published'') example_endpoints config
       ''http://api'' None None stale_disk))) = Inr ()
   \<and> map (\<lambda>p. files (fst (snd (snd (generateContent (example_api ''published'') example_endpoints config
           ''http://api'' None None stale_disk)))) p \<noteq> None)
       [[''content'', ''_hc'', ''api'', ''langs.json''],
        [''content'', ''_hc'', ''api'', ''en'', ''labels.json''],
        [''content'', ''_hc'', ''api'', ''en'', ''navigation.json''],
        [''content'', ''en'', ''1.news'', ''_dir.yml''],
        [''content'', ''en'', ''1.news'', ''0.index.md''],
        [''content'', ''en'', ''1.news'', ''1.post.md''],
        [''content'', ''index.md'']]
     = [True, True, True, True, True, True, True]"
  by code_simp

end
